theory Spec2Isabelle
  imports Complex_Main "HOL-Library.AList"
begin

section \<open>JavaScript values used by the services\<close>

text \<open>
  Strings are modelled as lists of 8-bit characters (ASCII text); \<open>length\<close> is the
  JavaScript \<open>.length\<close> on such text. JavaScript numbers are modelled as reals, with the
  results that arithmetic cannot express as a real (\<open>NaN\<close>, the infinities) written out
  where a division produces them. A thrown \<open>Error\<close> is a value carrying its message.
\<close>

datatype js_error = Error string

fun message :: "js_error \<Rightarrow> string" where
  "message (Error m) = m"

text \<open>The class \<open>\s\<close> of a regular expression, restricted to ASCII.\<close>

definition isSpace :: "char \<Rightarrow> bool" where
  "isSpace c \<longleftrightarrow> c \<in> set [CHR 0x09, CHR 0x0A, CHR 0x0B, CHR 0x0C, CHR 0x0D, CHR 0x20]"

text \<open>
  \<open>content.split(/\s+/)\<close>: every maximal run of white space is one separator; a
  separator at the start or the end of the text leaves an empty first or last word, and
  the empty text splits into one empty word. A character that is not white space joins
  the first word of the rest; the last white space of a run starts a new word.
\<close>

fun split_ws :: "string \<Rightarrow> string list" where
  "split_ws [] = [[]]"
| "split_ws (c # cs) =
     (if isSpace c then
        (case cs of
           [] \<Rightarrow> [] # split_ws cs
         | d # ds \<Rightarrow> if isSpace d then split_ws cs else [] # split_ws cs)
      else (case split_ws cs of [] \<Rightarrow> [[c]] | w # ws \<Rightarrow> (c # w) # ws))"

text \<open>\<open>words.join(sep)\<close>.\<close>

fun join :: "string \<Rightarrow> string list \<Rightarrow> string" where
  "join sep [] = []"
| "join sep [x] = x"
| "join sep (x # y # ys) = x @ sep @ join sep (y # ys)"

text \<open>\<open>String(n)\<close> for a natural number: its decimal digits.\<close>

definition digit :: "nat \<Rightarrow> char" where
  "digit d = char_of (48 + d)"

function toString :: "nat \<Rightarrow> string" where
  "toString n = (if n < 10 then [digit n] else toString (n div 10) @ [digit (n mod 10)])"
  by pat_completeness auto
termination
  by (relation "measure (\<lambda>n. n)") auto

text \<open>\<open>text.toLowerCase()\<close> on ASCII letters.\<close>

definition toLowerChar :: "char \<Rightarrow> char" where
  "toLowerChar c =
     (let k = (of_char c :: nat) in if 65 \<le> k \<and> k \<le> 90 then char_of (k + 32) else c)"

definition toLowerCase :: "string \<Rightarrow> string" where
  "toLowerCase s = map toLowerChar s"

text \<open>The character class \<open>[a-z0-9]\<close>.\<close>

definition isIdChar :: "char \<Rightarrow> bool" where
  "isIdChar c =
     (let k = (of_char c :: nat) in (97 \<le> k \<and> k \<le> 122) \<or> (48 \<le> k \<and> k \<le> 57))"

text \<open>
  \<open>.replace(/[^a-z0-9]+/g, '-')\<close>: every maximal run of characters outside the class
  becomes one dash. \<open>inrun\<close> says that the scan is inside such a run, whose dash is
  already written.
\<close>

fun replaceNonId :: "bool \<Rightarrow> string \<Rightarrow> string" where
  "replaceNonId inrun [] = []"
| "replaceNonId inrun (c # cs) =
     (if isIdChar c then c # replaceNonId False cs
      else if inrun then replaceNonId True cs
      else CHR ''-'' # replaceNonId True cs)"

text \<open>\<open>.replace(/^-|-$/g, '')\<close>: one dash is removed at the start, and one at the end.\<close>

definition stripDash :: "string \<Rightarrow> string" where
  "stripDash s =
     (let s1 = (case s of [] \<Rightarrow> [] | c # r \<Rightarrow> if c = CHR ''-'' then r else s)
      in if s1 \<noteq> [] \<and> last s1 = CHR ''-'' then butlast s1 else s1)"

section \<open>The chunker (documentProcessor.ts)\<close>

datatype chunk_type = Full_document | Section | Subsection

text \<open>
  The fields of \<open>EnhancedDocumentMetadata\<close> that the chunker and the index store read or
  write; the other fields of the base metadata are copied unchanged into every chunk.
\<close>

record EnhancedDocumentMetadata =
  file_path :: string
  file_name :: string
  file_hash :: string
  title :: "string option"
  heading_structure :: "string list"
  section_name :: "string option"
  chunk_index :: "nat option"
  chunk_kind :: chunk_type

record DocumentChunk =
  chunk_id :: string
  chunk_text :: string
  chunk_metadata :: EnhancedDocumentMetadata

record MarkdownSection =
  heading :: string
  level :: nat
  content :: string
  startLine :: int
  endLine :: int

text \<open>\<open>content.split('\n')\<close>: the lines of a text; the empty text has one empty line.\<close>

fun splitLines :: "string \<Rightarrow> string list" where
  "splitLines [] = [[]]"
| "splitLines (c # cs) =
     (if c = CHR 0x0A then [] # splitLines cs
      else (case splitLines cs of [] \<Rightarrow> [[c]] | l # ls \<Rightarrow> (c # l) # ls))"

text \<open>\<open>s.trim()\<close>: the white space at both ends is removed.\<close>

definition trim :: "string \<Rightarrow> string" where
  "trim s = rev (dropWhile isSpace (rev (dropWhile isSpace s)))"

text \<open>
  \<open>line.match(/^(#{1,6})\s+(.+)$/)\<close> on one line: the level and the heading, or
  \<open>None\<close> when the line does not match. The line must start with one to six hash
  signs followed by white space. The heading is what follows the white space, which must
  hold no line terminator (the dot does not match one); when nothing follows, the white
  space gives up its last character, and that character is the heading.
\<close>

definition isLineTerminator :: "char \<Rightarrow> bool" where
  "isLineTerminator c \<longleftrightarrow> c = CHR 0x0A \<or> c = CHR 0x0D"

definition headerMatch :: "string \<Rightarrow> (nat \<times> string) option" where
  "headerMatch line =
     (let n = length (takeWhile (\<lambda>c. c = CHR ''#'') line);
          rest = drop n line;
          ws = takeWhile isSpace rest;
          r = dropWhile isSpace rest
      in if 1 \<le> n \<and> n \<le> 6 \<and> ws \<noteq> [] then
           (if r \<noteq> [] then (if list_all (\<lambda>c. \<not> isLineTerminator c) r then Some (n, r) else None)
            else if 2 \<le> length ws \<and> \<not> isLineTerminator (last ws) then Some (n, [last ws])
            else None)
         else None)"

text \<open>
  The content of a section that starts at line \<open>startLine\<close> and ends before line
  \<open>stop\<close>: \<open>lines.slice(startLine + 1, stop).join('\n').trim()\<close>.
\<close>

definition sectionBody :: "string list \<Rightarrow> nat \<Rightarrow> nat \<Rightarrow> string" where
  "sectionBody lines start stop =
     trim (join ''\<newline>'' (take (stop - (start + 1)) (drop (start + 1) lines)))"

text \<open>
  The body of the loop of \<open>extractSections\<close> for line \<open>i\<close>, on the sections pushed
  so far and the current section.
\<close>

definition extractStep ::
  "string list \<Rightarrow> nat \<Rightarrow> MarkdownSection list \<times> MarkdownSection option
    \<Rightarrow> MarkdownSection list \<times> MarkdownSection option" where
  "extractStep lines i st =
     (case st of (sections, currentSection) \<Rightarrow>
        (case headerMatch (lines ! i) of
           None \<Rightarrow> (sections, currentSection)
         | Some (lvl, h) \<Rightarrow>
             ((case currentSection of
                 None \<Rightarrow> sections
               | Some cur \<Rightarrow>
                   sections @ [cur\<lparr>endLine := int i - 1,
                                  content := sectionBody lines (nat (startLine cur)) i\<rparr>]),
              Some \<lparr>heading = h, level = lvl, content = [], startLine = int i, endLine = - 1\<rparr>)))"

definition extractSections :: "string \<Rightarrow> MarkdownSection list" where
  "extractSections text =
     (let lines = splitLines text in
      case fold (extractStep lines) [0..<length lines] ([], None) of
        (sections, currentSection) \<Rightarrow>
          (case currentSection of
             None \<Rightarrow> sections
           | Some cur \<Rightarrow>
               sections @ [cur\<lparr>endLine := int (length lines) - 1,
                              content := sectionBody lines (nat (startLine cur)) (length lines)\<rparr>]))"

definition maxChunkSize :: nat where
  "maxChunkSize = 1000"

definition chunkOverlap :: nat where
  "chunkOverlap = 200"

definition wordsPerChunk :: nat where
  "wordsPerChunk = maxChunkSize div 6"

definition overlapWords :: nat where
  "overlapWords = chunkOverlap div 6"

definition sanitizeId :: "string \<Rightarrow> string" where
  "sanitizeId text = stripDash (replaceNonId False (toLowerCase text))"

text \<open>\<open>words.slice(i, i + wordsPerChunk)\<close>, the constant \<open>chunkWords\<close> of the loop.\<close>

definition chunkWords :: "nat \<Rightarrow> string list \<Rightarrow> string list" where
  "chunkWords i ws = take wordsPerChunk (drop i ws)"

text \<open>The loop of \<open>slidingWindowChunk\<close>, from index \<open>i\<close> on.\<close>

function slidingWindowLoop :: "nat \<Rightarrow> string list \<Rightarrow> string list" where
  "slidingWindowLoop i ws =
     (if i < length ws
      then join '' '' (chunkWords i ws) # slidingWindowLoop (i + (wordsPerChunk - overlapWords)) ws
      else [])"
  by pat_completeness auto
termination
  by (relation "measure (\<lambda>(i, ws). length ws - i)")
     (auto simp: wordsPerChunk_def overlapWords_def maxChunkSize_def chunkOverlap_def)

definition slidingWindowChunk :: "string \<Rightarrow> string list" where
  "slidingWindowChunk text = slidingWindowLoop 0 (split_ws text)"

text \<open>The text \<open>`# ${section.heading}\n\n${section.content}`\<close> of a section.\<close>

definition sectionContent :: "MarkdownSection \<Rightarrow> string" where
  "sectionContent s = ''# '' @ heading s @ ''\<newline>\<newline>'' @ content s"

text \<open>The body of the loop over the sections in \<open>createChunks\<close>.\<close>

definition sectionChunks :: "EnhancedDocumentMetadata \<Rightarrow> MarkdownSection \<Rightarrow> DocumentChunk list" where
  "sectionChunks baseMetadata s =
     (if length (sectionContent s) \<le> maxChunkSize
      then [\<lparr>chunk_id = file_path baseMetadata @ ''#'' @ sanitizeId (heading s),
             chunk_text = sectionContent s,
             chunk_metadata = baseMetadata\<lparr>section_name := Some (heading s),
               chunk_kind := (if level s = 1 then Section else Subsection)\<rparr>\<rparr>]
      else map (\<lambda>(index, chunk).
             \<lparr>chunk_id = file_path baseMetadata @ ''#'' @ sanitizeId (heading s) @ ''#'' @ toString index,
              chunk_text = chunk,
              chunk_metadata = baseMetadata\<lparr>section_name := Some (heading s),
                chunk_index := Some index, chunk_kind := Subsection\<rparr>\<rparr>)
           (enumerate 0 (slidingWindowChunk (sectionContent s))))"

definition createChunks ::
  "string \<Rightarrow> MarkdownSection list \<Rightarrow> EnhancedDocumentMetadata \<Rightarrow> DocumentChunk list" where
  "createChunks text sections baseMetadata =
     (if length text \<le> maxChunkSize
      then [\<lparr>chunk_id = file_path baseMetadata, chunk_text = text,
             chunk_metadata = baseMetadata\<lparr>chunk_kind := Full_document\<rparr>\<rparr>]
      else concat (map (sectionChunks baseMetadata) sections))"

text \<open>
  The number of windows that the specification gives for a section of \<open>len\<close> words:
  the ceiling of \<open>(len - overlapWords) / (windowWords - overlapWords)\<close>.
\<close>

definition spec_window_count :: "nat \<Rightarrow> int" where
  "spec_window_count len =
     \<lceil>(real len - real overlapWords) / (real wordsPerChunk - real overlapWords)\<rceil>"

section \<open>The index store (customVectorStore.ts, gemini.ts, utils)\<close>

subsection \<open>Numbers and cosine similarity\<close>

text \<open>
  The result of a JavaScript division of two finite numbers: a division by zero does not
  raise, it gives \<open>NaN\<close> for \<open>0 / 0\<close> and an infinity otherwise.
\<close>

datatype number = Num real | NaN | PosInfinity | NegInfinity






subsection \<open>The in-memory store and the persisted snapshot\<close>

text \<open>
  A JavaScript \<open>Map\<close> is an association list in insertion order: \<open>set\<close> is
  \<open>AList.update\<close> (an existing key keeps its place), \<open>delete\<close> is \<open>AList.delete\<close>,
  \<open>get\<close> is \<open>map_of\<close>. The value stored for an embedding may be \<open>undefined\<close>, which
  is \<open>None\<close>. \<open>new Set(xs)\<close> keeps the first occurrence of every element.
\<close>

definition js_Set :: "'a list \<Rightarrow> 'a list" where
  "js_Set xs = fold (\<lambda>x acc. if x \<in> set acc then acc else acc @ [x]) xs []"

record store =
  documents :: "(string \<times> DocumentChunk) list"
  embeddings :: "(string \<times> real list option) list"

text \<open>
  The three artifacts of the snapshot: \<open>documents.json\<close>, \<open>embeddings.json\<close> and
  the file of the file hashes; \<open>None\<close> is a file that does not exist. The files hold the
  values that \<open>JSON.stringify\<close> wrote. A write may fail: \<open>writeError\<close> gives, for
  an artifact, the error that \<open>fs.writeFileSync\<close> raises on it, if any, and a failed
  write leaves the file as it was.
\<close>

datatype artifact = DocumentsFile | EmbeddingsFile | FileHashesFile

record disk =
  documents_json :: "DocumentChunk list option"
  embeddings_json :: "(string \<times> real list) list option"
  file_hashes_json :: "(string \<times> string) list option"

text \<open>
  \<open>JSON.stringify(embeddingsObject)\<close>: a property whose value is \<open>undefined\<close> is
  left out.
\<close>

definition stringifyEmbeddings :: "(string \<times> real list option) list \<Rightarrow> (string \<times> real list) list" where
  "stringifyEmbeddings es = List.map_filter (\<lambda>(k, v). map_option (\<lambda>e. (k, e)) v) es"

definition saveIndex ::
  "(artifact \<Rightarrow> js_error option) \<Rightarrow> store \<Rightarrow> disk \<Rightarrow> (js_error + unit) \<times> disk" where
  "saveIndex writeError st d =
     (case writeError DocumentsFile of
        Some err \<Rightarrow> (Inl err, d)
      | None \<Rightarrow>
          (let d1 = d\<lparr>documents_json := Some (map snd (documents st))\<rparr> in
           case writeError EmbeddingsFile of
             Some err \<Rightarrow> (Inl err, d1)
           | None \<Rightarrow> (Inr (), d1\<lparr>embeddings_json := Some (stringifyEmbeddings (embeddings st))\<rparr>)))"

text \<open>\<open>saveStoredFileHashes\<close> catches and logs a failed write.\<close>

definition saveStoredFileHashes ::
  "(artifact \<Rightarrow> js_error option) \<Rightarrow> (string \<times> string) list \<Rightarrow> disk \<Rightarrow> disk" where
  "saveStoredFileHashes writeError fileHashes d =
     (case writeError FileHashesFile of
        Some err \<Rightarrow> d
      | None \<Rightarrow> d\<lparr>file_hashes_json := Some fileHashes\<rparr>)"

definition loadStoredFileHashes :: "disk \<Rightarrow> (string \<times> string) list" where
  "loadStoredFileHashes d = (case file_hashes_json d of None \<Rightarrow> [] | Some t \<Rightarrow> t)"

subsection \<open>Embeddings from the provider\<close>

text \<open>
  The remote provider is a parameter: a call takes the state of the outside world and
  returns a result or an error, and the next state. \<open>embedContent\<close> is the call of
  \<open>getTextEmbedding\<close> to the provider, with the check of its answer.
\<close>

definition isBlank :: "string \<Rightarrow> bool" where
  "isBlank text = list_all isSpace text"

definition getTextEmbedding ::
  "(string \<Rightarrow> 'w \<Rightarrow> (js_error + real list) \<times> 'w) \<Rightarrow> string \<Rightarrow> 'w \<Rightarrow> (js_error + real list) \<times> 'w" where
  "getTextEmbedding embedContent text w =
     (if isBlank text then (Inl (Error ''Text cannot be empty for embedding''), w)
      else embedContent (if 10000 < length text then take 10000 text @ ''...'' else text) w)"

text \<open>
  The loops of \<open>getTextEmbeddings\<close> over the valid texts; a text whose embedding fails
  is skipped. (The batches of 50 only pace the calls.)
\<close>

fun embedLoop ::
  "(string \<Rightarrow> 'w \<Rightarrow> (js_error + real list) \<times> 'w) \<Rightarrow> string list \<Rightarrow> real list list \<Rightarrow> 'w
    \<Rightarrow> real list list \<times> 'w" where
  "embedLoop embedContent [] embs w = (embs, w)"
| "embedLoop embedContent (t # ts) embs w =
     (case getTextEmbedding embedContent t w of
        (Inr e, w') \<Rightarrow> embedLoop embedContent ts (embs @ [e]) w'
      | (Inl err, w') \<Rightarrow> embedLoop embedContent ts embs w')"

definition getTextEmbeddings ::
  "(string \<Rightarrow> 'w \<Rightarrow> (js_error + real list) \<times> 'w) \<Rightarrow> string list \<Rightarrow> 'w \<Rightarrow> real list list \<times> 'w" where
  "getTextEmbeddings embedContent texts w =
     (let validTexts = filter (\<lambda>t. \<not> isBlank t) texts in
      if validTexts = [] then ([], w) else embedLoop embedContent validTexts [] w)"

subsection \<open>Full build\<close>

text \<open>The body of the inner loop of \<open>buildIndexFromScratch\<close>, for \<open>batch[j]\<close> and \<open>embeddings[j]\<close>.\<close>

definition storeIfValid :: "DocumentChunk \<times> real list \<Rightarrow> store \<Rightarrow> store" where
  "storeIfValid p st =
     (case p of (doc, embedding) \<Rightarrow>
        if embedding \<noteq> []
        then st\<lparr>documents := AList.update (chunk_id doc) doc (documents st),
                embeddings := AList.update (chunk_id doc) (Some embedding) (embeddings st)\<rparr>
        else st)"

text \<open>
  The loop over the batches of 10, from index \<open>i\<close> on. \<open>zip\<close> stops at the shorter of
  the batch and its embeddings, as the bound \<open>Math.min(batch.length, embeddings.length)\<close>
  does.
\<close>

function buildLoop ::
  "(string \<Rightarrow> 'w \<Rightarrow> (js_error + real list) \<times> 'w) \<Rightarrow> nat \<Rightarrow> DocumentChunk list \<Rightarrow> store \<Rightarrow> 'w
    \<Rightarrow> store \<times> 'w" where
  "buildLoop embedContent i validDocuments st w =
     (if i < length validDocuments then
        (let batch = take 10 (drop i validDocuments) in
         case getTextEmbeddings embedContent (map chunk_text batch) w of
           (embs, w') \<Rightarrow>
             buildLoop embedContent (i + 10) validDocuments (fold storeIfValid (zip batch embs) st) w')
      else (st, w))"
  by pat_completeness auto
termination
  by (relation "measure (\<lambda>(e, i, ds, st, w). length ds - i)") auto

definition buildIndexFromScratch ::
  "(string \<Rightarrow> 'w \<Rightarrow> (js_error + real list) \<times> 'w) \<Rightarrow> (artifact \<Rightarrow> js_error option)
    \<Rightarrow> DocumentChunk list \<Rightarrow> (string \<times> string) list \<Rightarrow> store \<Rightarrow> disk \<Rightarrow> 'w
    \<Rightarrow> (js_error + unit) \<times> store \<times> disk \<times> 'w" where
  "buildIndexFromScratch embedContent writeError currentDocuments currentFileHashes st d w =
     (let validDocuments = filter (\<lambda>doc. \<not> isBlank (chunk_text doc)) currentDocuments in
      case buildLoop embedContent 0 validDocuments \<lparr>documents = [], embeddings = []\<rparr> w of
        (st', w') \<Rightarrow>
          (case saveIndex writeError st' d of
             (Inl err, d') \<Rightarrow> (Inl err, st', d', w')
           | (Inr u, d') \<Rightarrow> (Inr (), st', saveStoredFileHashes writeError currentFileHashes d', w')))"

subsection \<open>Incremental update\<close>

definition chunkIdsOfFile :: "store \<Rightarrow> string \<Rightarrow> string list" where
  "chunkIdsOfFile st p =
     map chunk_id (filter (\<lambda>doc. file_path (chunk_metadata doc) = p) (map snd (documents st)))"

definition chunksOfFile :: "DocumentChunk list \<Rightarrow> string \<Rightarrow> DocumentChunk list" where
  "chunksOfFile currentDocuments p =
     filter (\<lambda>doc. file_path (chunk_metadata doc) = p) currentDocuments"

definition currentFilesPaths :: "DocumentChunk list \<Rightarrow> string list" where
  "currentFilesPaths currentDocuments = js_Set (map (\<lambda>doc. file_path (chunk_metadata doc)) currentDocuments)"

definition storedFilePaths :: "store \<Rightarrow> string list" where
  "storedFilePaths st = js_Set (map (\<lambda>doc. file_path (chunk_metadata doc)) (map snd (documents st)))"

text \<open>\<open>!storedHash\<close>: the path has no stored hash, or the stored hash is the empty string.\<close>

definition noStoredHash :: "(string \<times> string) list \<Rightarrow> string \<Rightarrow> bool" where
  "noStoredHash storedFileHashes p =
     (case map_of storedFileHashes p of None \<Rightarrow> True | Some h \<Rightarrow> h = [])"

text \<open>
  The arrays \<open>documentIdsToDelete\<close> and \<open>documentsToInsert\<close> after the two loops
  over the stored and the current file paths.
\<close>

definition documentIdsToDelete ::
  "DocumentChunk list \<Rightarrow> (string \<times> string) list \<Rightarrow> (string \<times> string) list \<Rightarrow> store \<Rightarrow> string list" where
  "documentIdsToDelete currentDocuments currentFileHashes storedFileHashes st =
     concat (map (\<lambda>p. if p \<notin> set (currentFilesPaths currentDocuments) then chunkIdsOfFile st p else [])
               (storedFilePaths st))
     @ concat (map (\<lambda>p. if noStoredHash storedFileHashes p then []
                        else if map_of currentFileHashes p \<noteq> map_of storedFileHashes p
                        then chunkIdsOfFile st p else [])
               (currentFilesPaths currentDocuments))"

definition documentsToInsert ::
  "DocumentChunk list \<Rightarrow> (string \<times> string) list \<Rightarrow> (string \<times> string) list \<Rightarrow> DocumentChunk list" where
  "documentsToInsert currentDocuments currentFileHashes storedFileHashes =
     concat (map (\<lambda>p. if noStoredHash storedFileHashes p then chunksOfFile currentDocuments p
                        else if map_of currentFileHashes p \<noteq> map_of storedFileHashes p
                        then chunksOfFile currentDocuments p else [])
               (currentFilesPaths currentDocuments))"

definition applyDeletion :: "string \<Rightarrow> store \<Rightarrow> store" where
  "applyDeletion docId st =
     st\<lparr>documents := AList.delete docId (documents st),
        embeddings := AList.delete docId (embeddings st)\<rparr>"

text \<open>
  The body of the insertion loop for \<open>documentsToInsert[i]\<close>: the document is stored
  with \<open>embeddings[i]\<close>, which is \<open>undefined\<close> beyond the end of \<open>embeddings\<close>.
\<close>

definition applyInsertion :: "real list list \<Rightarrow> nat \<times> DocumentChunk \<Rightarrow> store \<Rightarrow> store" where
  "applyInsertion embs p st =
     (case p of (i, doc) \<Rightarrow>
        st\<lparr>documents := AList.update (chunk_id doc) doc (documents st),
           embeddings := AList.update (chunk_id doc)
             (if i < length embs then Some (embs ! i) else None) (embeddings st)\<rparr>)"

definition performIncrementalUpdate ::
  "(string \<Rightarrow> 'w \<Rightarrow> (js_error + real list) \<times> 'w) \<Rightarrow> (artifact \<Rightarrow> js_error option)
    \<Rightarrow> DocumentChunk list \<Rightarrow> (string \<times> string) list \<Rightarrow> store \<Rightarrow> disk \<Rightarrow> 'w
    \<Rightarrow> (js_error + unit) \<times> store \<times> disk \<times> 'w" where
  "performIncrementalUpdate embedContent writeError currentDocuments currentFileHashes st d w =
     (let storedFileHashes = loadStoredFileHashes d;
          toInsert = documentsToInsert currentDocuments currentFileHashes storedFileHashes;
          toDelete = documentIdsToDelete currentDocuments currentFileHashes storedFileHashes st
      in if toInsert = [] \<and> toDelete = [] then (Inr (), st, d, w)
         else
           (let st1 = fold applyDeletion toDelete st in
            case (if toInsert \<noteq> []
                  then (case getTextEmbeddings embedContent (map chunk_text toInsert) w of
                          (embs, w') \<Rightarrow> (fold (applyInsertion embs) (enumerate 0 toInsert) st1, w'))
                  else (st1, w)) of
              (st2, w2) \<Rightarrow>
                (case saveIndex writeError st2 d of
                   (Inl err, d') \<Rightarrow> (Inl err, st2, d', w2)
                 | (Inr u, d') \<Rightarrow> (Inr (), st2, saveStoredFileHashes writeError currentFileHashes d', w2))))"

subsection \<open>What a pass leaves on the disk\<close>

text \<open>
  The snapshot \<open>d'\<close> and the outcome \<open>r\<close> of a pass that reaches its persistence
  step with the store \<open>st'\<close> and the snapshot \<open>d\<close>, by the first write that fails:
  the pass raises with the snapshot untouched, raises with the new chunk collection beside
  the old embedding map and file hashes, returns normally with the old file hashes beside
  the new chunk collection and embedding map, or returns normally with all three new.
\<close>

definition snapshotAfter ::
  "(artifact \<Rightarrow> js_error option) \<Rightarrow> store \<Rightarrow> (string \<times> string) list \<Rightarrow> disk
    \<Rightarrow> js_error + unit \<Rightarrow> disk \<Rightarrow> bool" where
  "snapshotAfter writeError st' fileHashes d r d' =
     (case writeError DocumentsFile of
        Some err \<Rightarrow> r = Inl err \<and> d' = d
      | None \<Rightarrow>
          (case writeError EmbeddingsFile of
             Some err \<Rightarrow> r = Inl err \<and> d' = d\<lparr>documents_json := Some (map snd (documents st'))\<rparr>
           | None \<Rightarrow>
               (case writeError FileHashesFile of
                  Some err \<Rightarrow>
                    r = Inr () \<and> d' = d\<lparr>documents_json := Some (map snd (documents st')),
                      embeddings_json := Some (stringifyEmbeddings (embeddings st'))\<rparr>
                | None \<Rightarrow>
                    r = Inr () \<and> d' = d\<lparr>documents_json := Some (map snd (documents st')),
                      embeddings_json := Some (stringifyEmbeddings (embeddings st')),
                      file_hashes_json := Some fileHashes\<rparr>)))"

text \<open>
  The invariant of the store that the claim on embeddings states: the chunk collection
  and the embedding map have the same ids in the same order, and every embedding is a
  non-empty vector.
\<close>

definition embedded :: "store \<Rightarrow> bool" where
  "embedded st \<longleftrightarrow>
     map fst (documents st) = map fst (embeddings st)
     \<and> list_all (\<lambda>(k, v). case v of None \<Rightarrow> False | Some e \<Rightarrow> e \<noteq> []) (embeddings st)"

section \<open>The query workflow (pocketFlowRAG.ts)\<close>

subsection \<open>Data of a run\<close>

record QueryIntent =
  intent_type :: string
  confidence :: real

record QueryResult =
  document :: DocumentChunk
  similarity :: number

record EnhancedQuery =
  original :: string
  query_intent :: QueryIntent
  expanded :: "string list"

text \<open>The object that \<open>MetadataEnhancementNode\<close> builds.\<close>

record analytics =
  analysis_intent :: string
  analysis_confidence :: real
  analysis_expansions :: nat
  documentsFound :: nat
  topRelevance :: number
  responseLength :: nat
  timestamp :: string

text \<open>
  \<open>RAGSharedData\<close>: every field is optional. The run mutates the one object
  \<open>shared\<close>; here every stage returns the changed record.
\<close>

record RAGSharedData =
  shared_query :: "string option"
  shared_intent :: "QueryIntent option"
  shared_expandedQueries :: "string list option"
  shared_searchResults :: "QueryResult list option"
  shared_queryResults :: "QueryResult list option"
  shared_context :: "string option"
  shared_response :: "string option"
  shared_metadata :: "analytics option"
  shared_error :: "js_error option"

text \<open>
  The metadata of the object that \<open>query\<close> returns: the analytics of the run, or the
  marker \<open>{ error: true, message }\<close>.
\<close>

datatype response_metadata = Analytics analytics | ErrorMarker string

record query_response =
  response :: string
  metadata :: "response_metadata option"

subsection \<open>The collaborators\<close>

text \<open>
  The calls that leave the workflow are parameters; each takes the state of the outside
  world and returns a result or a thrown error, and the next state. They are the methods
  \<open>classifyQueryIntent\<close>, \<open>expandQuery\<close> and \<open>generateText\<close> of
  \<open>GeminiService\<close>, \<open>buildPrompt\<close> of \<open>QueryProcessor\<close>, the clock behind
  \<open>new Date().toISOString()\<close>, and the three methods of \<open>CustomVectorStore\<close> that
  the adapter looks up by name at run time: \<open>None\<close> is a method that the store does
  not have.
\<close>

record 'w services =
  gemini_classifyQueryIntent :: "string \<Rightarrow> 'w \<Rightarrow> (js_error + QueryIntent) \<times> 'w"
  gemini_expandQuery :: "string \<Rightarrow> 'w \<Rightarrow> (js_error + string list) \<times> 'w"
  gemini_generateText :: "string \<Rightarrow> 'w \<Rightarrow> (js_error + string) \<times> 'w"
  processor_buildPrompt :: "string \<Rightarrow> string \<Rightarrow> QueryIntent \<Rightarrow> string"
  store_vectorSearch :: "(string \<Rightarrow> nat \<Rightarrow> 'w \<Rightarrow> (js_error + QueryResult list) \<times> 'w) option"
  store_generateLLMFallbackResponse :: "(EnhancedQuery \<Rightarrow> 'w \<Rightarrow> (js_error + string) \<times> 'w) option"
  store_generateResponseWithSources ::
    "(string \<Rightarrow> QueryResult list \<Rightarrow> QueryIntent option \<Rightarrow> 'w \<Rightarrow> (js_error + string) \<times> 'w) option"
  clock_toISOString :: "'w \<Rightarrow> string"

text \<open>\<open>x || d\<close> for an optional string: \<open>undefined\<close> and the empty string give \<open>d\<close>.\<close>

definition orElse :: "string option \<Rightarrow> string \<Rightarrow> string" where
  "orElse x d = (case x of None \<Rightarrow> d | Some s \<Rightarrow> if s = [] then d else s)"

definition quote :: string where
  "quote = [CHR 0x22]"

subsection \<open>CustomVectorStoreAdapter\<close>

text \<open>
  Each method of the adapter catches whatever the store's method throws and returns a
  value in its place, so a call of the adapter raises no error.
\<close>

definition searchDocuments ::
  "'w services \<Rightarrow> string \<Rightarrow> nat \<Rightarrow> 'w \<Rightarrow> QueryResult list \<times> 'w" where
  "searchDocuments sv q topK w =
     (case (case store_vectorSearch sv of
              Some searchMethod \<Rightarrow> searchMethod q topK w
            | None \<Rightarrow> (Inl (Error ''Search method not available''), w)) of
        (Inr rs, w') \<Rightarrow> (rs, w')
      | (Inl err, w') \<Rightarrow> ([], w'))"

text \<open>The fixed answers of the adapter (the warning sign of the first is left out).\<close>

definition notFoundMessage :: "string \<Rightarrow> string" where
  "notFoundMessage q =
     ''## Information Not Found\<newline>\<newline>I couldn't find specific information about '' @ quote @ q @ quote
     @ '' in the available documentation.\<newline>\<newline>**What you can try:**\<newline>''
     @ ''- Check if your question relates to topics covered in our docs\<newline>''
     @ ''- Rephrase your question using different keywords\<newline>''
     @ ''- Browse the documentation categories for related topics\<newline>\<newline>''
     @ ''*Note: This response uses general knowledge as no specific documentation was found.*''"

definition generationErrorMessage :: string where
  "generationErrorMessage =
     ''## Error generating response\<newline>\<newline>''
     @ ''I encountered an error while generating a response with sources. Please try again.''"

definition generateLLMFallback :: "'w services \<Rightarrow> EnhancedQuery \<Rightarrow> 'w \<Rightarrow> string \<times> 'w" where
  "generateLLMFallback sv q w =
     (case (case store_generateLLMFallbackResponse sv of
              Some fallbackMethod \<Rightarrow> fallbackMethod q w
            | None \<Rightarrow> (Inl (Error ''LLM fallback method not available''), w)) of
        (Inr s, w') \<Rightarrow> (s, w')
      | (Inl err, w') \<Rightarrow> (notFoundMessage (original q), w'))"

definition generateResponseWithSources ::
  "'w services \<Rightarrow> string \<Rightarrow> QueryResult list \<Rightarrow> QueryIntent option \<Rightarrow> 'w \<Rightarrow> string \<times> 'w" where
  "generateResponseWithSources sv queryText results intent w =
     (case (case store_generateResponseWithSources sv of
              Some responseMethod \<Rightarrow> responseMethod queryText results intent w
            | None \<Rightarrow> (Inl (Error ''Response with sources method not available''), w)) of
        (Inr s, w') \<Rightarrow> (s, w')
      | (Inl err, w') \<Rightarrow> (generationErrorMessage, w'))"

subsection \<open>Nodes\<close>

text \<open>
  Modelled from the spec: the classes \<open>Node\<close> and \<open>Flow\<close> of the package
  \<open>pocketflow\<close>, which the workflow extends and which are not in the repository. A
  node runs \<open>prep\<close>, then \<open>exec\<close> within its retry budget, then \<open>post\<close>, which
  returns the label of the outcome. The retries are local to the stage; the error of the
  last attempt is raised, and an error raised by \<open>prep\<close> or \<open>exec\<close> ends the run of
  the node before \<open>post\<close>. (The fixed delay between two attempts is not modelled, and no
  node of this workflow has a budget of 0 attempts.)
\<close>

fun execWithRetries ::
  "nat \<Rightarrow> ('p \<Rightarrow> 'w \<Rightarrow> (js_error + 'e) \<times> 'w) \<Rightarrow> 'p \<Rightarrow> 'w \<Rightarrow> (js_error + 'e) \<times> 'w" where
  "execWithRetries (Suc (Suc n)) exec p w =
     (case exec p w of
        (Inr r, w') \<Rightarrow> (Inr r, w')
      | (Inl err, w') \<Rightarrow> execWithRetries (Suc n) exec p w')"
| "execWithRetries n exec p w = exec p w"

definition runNode ::
  "nat \<Rightarrow> (RAGSharedData \<Rightarrow> js_error + 'p) \<Rightarrow> ('p \<Rightarrow> 'w \<Rightarrow> (js_error + 'e) \<times> 'w)
    \<Rightarrow> (RAGSharedData \<Rightarrow> 'p \<Rightarrow> 'e \<Rightarrow> 'w \<Rightarrow> (string \<times> RAGSharedData) \<times> 'w)
    \<Rightarrow> RAGSharedData \<Rightarrow> 'w \<Rightarrow> (js_error + string \<times> RAGSharedData) \<times> 'w" where
  "runNode maxRetries prep exec post shared w =
     (case prep shared of
        Inl err \<Rightarrow> (Inl err, w)
      | Inr prepRes \<Rightarrow>
          (case execWithRetries maxRetries exec prepRes w of
             (Inl err, w') \<Rightarrow> (Inl err, w')
           | (Inr execRes, w') \<Rightarrow>
               (case post shared prepRes execRes w' of (res, w'') \<Rightarrow> (Inr res, w''))))"

definition generalIntent :: QueryIntent where
  "generalIntent = \<lparr>intent_type = ''general'', confidence = 0.5\<rparr>"

subsubsection \<open>QueryIntentNode\<close>

definition QueryIntentNode_prep :: "RAGSharedData \<Rightarrow> js_error + string" where
  "QueryIntentNode_prep shared =
     (case shared_query shared of
        None \<Rightarrow> Inl (Error ''Query is required'')
      | Some q \<Rightarrow> if q = [] then Inl (Error ''Query is required'') else Inr q)"

definition QueryIntentNode_exec :: "'w services \<Rightarrow> string \<Rightarrow> 'w \<Rightarrow> (js_error + QueryIntent) \<times> 'w" where
  "QueryIntentNode_exec sv q w =
     (case gemini_classifyQueryIntent sv q w of
        (Inr i, w') \<Rightarrow> (Inr i, w')
      | (Inl err, w') \<Rightarrow> (Inr generalIntent, w'))"

definition QueryIntentNode_post ::
  "RAGSharedData \<Rightarrow> string \<Rightarrow> QueryIntent \<Rightarrow> 'w \<Rightarrow> (string \<times> RAGSharedData) \<times> 'w" where
  "QueryIntentNode_post shared prepRes execRes w =
     ((if intent_type execRes = ''troubleshooting'' then ''troubleshooting''
       else if intent_type execRes = ''example'' then ''example''
       else ''default'',
       shared\<lparr>shared_intent := Some execRes\<rparr>), w)"

subsubsection \<open>QueryExpansionNode\<close>

definition QueryExpansionNode_prep :: "RAGSharedData \<Rightarrow> js_error + string" where
  "QueryExpansionNode_prep shared = Inr (orElse (shared_query shared) [])"

definition QueryExpansionNode_exec :: "'w services \<Rightarrow> string \<Rightarrow> 'w \<Rightarrow> (js_error + string list) \<times> 'w" where
  "QueryExpansionNode_exec sv q w =
     (case gemini_expandQuery sv q w of
        (Inr qs, w') \<Rightarrow> (Inr qs, w')
      | (Inl err, w') \<Rightarrow> (Inr [], w'))"

definition QueryExpansionNode_post ::
  "RAGSharedData \<Rightarrow> string \<Rightarrow> string list \<Rightarrow> 'w \<Rightarrow> (string \<times> RAGSharedData) \<times> 'w" where
  "QueryExpansionNode_post shared prepRes execRes w =
     ((''default'', shared\<lparr>shared_expandedQueries := Some execRes\<rparr>), w)"

subsubsection \<open>VectorSearchNode\<close>

definition VectorSearchNode_prep :: "RAGSharedData \<Rightarrow> js_error + string \<times> string list" where
  "VectorSearchNode_prep shared =
     Inr (orElse (shared_query shared) [],
          (case shared_expandedQueries shared of None \<Rightarrow> [] | Some qs \<Rightarrow> qs))"

text \<open>
  The loop of \<open>exec\<close> over \<open>allQueries\<close>, with the results pushed so far. (The
  \<open>catch\<close> of the loop is never reached: the adapter raises no error.)
\<close>

fun searchLoop :: "'w services \<Rightarrow> string list \<Rightarrow> QueryResult list \<Rightarrow> 'w \<Rightarrow> QueryResult list \<times> 'w" where
  "searchLoop sv [] results w = (results, w)"
| "searchLoop sv (q # qs) results w =
     (case searchDocuments sv q 5 w of
        (queryResults, w') \<Rightarrow> searchLoop sv qs (results @ queryResults) w')"

text \<open>\<open>self.findIndex(p)\<close>: the first index whose element satisfies \<open>p\<close>, or \<open>-1\<close>.\<close>

definition findIndex :: "('a \<Rightarrow> bool) \<Rightarrow> 'a list \<Rightarrow> int" where
  "findIndex p xs =
     (case find (\<lambda>i. p (xs ! i)) [0..<length xs] of None \<Rightarrow> - 1 | Some i \<Rightarrow> int i)"

definition uniqueResults :: "QueryResult list \<Rightarrow> QueryResult list" where
  "uniqueResults results =
     map snd (filter (\<lambda>(index, result).
         int index = findIndex (\<lambda>r. chunk_id (document r) = chunk_id (document result)) results)
       (enumerate 0 results))"

definition VectorSearchNode_exec ::
  "'w services \<Rightarrow> string \<times> string list \<Rightarrow> 'w \<Rightarrow> (js_error + QueryResult list) \<times> 'w" where
  "VectorSearchNode_exec sv input w =
     (case searchLoop sv (fst input # snd input) [] w of
        (results, w') \<Rightarrow> (Inr (take 5 (uniqueResults results)), w'))"

definition VectorSearchNode_post ::
  "RAGSharedData \<Rightarrow> string \<times> string list \<Rightarrow> QueryResult list \<Rightarrow> 'w \<Rightarrow> (string \<times> RAGSharedData) \<times> 'w" where
  "VectorSearchNode_post shared prepRes execRes w =
     ((if length execRes = 0 then ''no_results''
       else if 3 \<le> length execRes then ''high_confidence''
       else ''low_confidence'',
       shared\<lparr>shared_searchResults := Some execRes, shared_queryResults := Some execRes\<rparr>), w)"


subsubsection \<open>ContextBuildingNode\<close>

definition ContextBuildingNode_prep :: "RAGSharedData \<Rightarrow> js_error + QueryResult list" where
  "ContextBuildingNode_prep shared =
     Inr (case shared_searchResults shared of None \<Rightarrow> [] | Some rs \<Rightarrow> rs)"

definition contextEntry :: "nat \<times> QueryResult \<Rightarrow> string" where
  "contextEntry p =
     (case p of (index, result) \<Rightarrow>
        (let doc = document result;
             sec = (case section_name (chunk_metadata doc) of
                      None \<Rightarrow> []
                    | Some s \<Rightarrow> if s = [] then [] else '' ('' @ s @ '')'')
         in ''Document '' @ toString (index + 1) @ '': '' @ file_name (chunk_metadata doc) @ sec
            @ ''\<newline>'' @ take 500 (chunk_text doc) @ ''...''))"

definition ContextBuildingNode_exec :: "QueryResult list \<Rightarrow> 'w \<Rightarrow> (js_error + string) \<times> 'w" where
  "ContextBuildingNode_exec results w =
     (if length results = 0 then (Inr [], w)
      else (Inr (join ''\<newline>\<newline>'' (map contextEntry (enumerate 0 results))), w))"

definition ContextBuildingNode_post ::
  "RAGSharedData \<Rightarrow> QueryResult list \<Rightarrow> string \<Rightarrow> 'w \<Rightarrow> (string \<times> RAGSharedData) \<times> 'w" where
  "ContextBuildingNode_post shared prepRes execRes w =
     ((''default'', shared\<lparr>shared_context := Some execRes\<rparr>), w)"

subsubsection \<open>ResponseGenerationNode\<close>

definition ResponseGenerationNode_prep :: "RAGSharedData \<Rightarrow> js_error + string \<times> string \<times> QueryIntent" where
  "ResponseGenerationNode_prep shared =
     Inr (orElse (shared_query shared) [], orElse (shared_context shared) [],
          (case shared_intent shared of None \<Rightarrow> generalIntent | Some i \<Rightarrow> i))"

definition ResponseGenerationNode_exec ::
  "'w services \<Rightarrow> string \<times> string \<times> QueryIntent \<Rightarrow> 'w \<Rightarrow> (js_error + string) \<times> 'w" where
  "ResponseGenerationNode_exec sv input w =
     (case input of (q, ctx, intent) \<Rightarrow>
        if ctx = [] then (Inl (Error ''No context available for response generation''), w)
        else gemini_generateText sv (processor_buildPrompt sv q ctx intent) w)"

definition ResponseGenerationNode_post ::
  "'w services \<Rightarrow> RAGSharedData \<Rightarrow> string \<times> string \<times> QueryIntent \<Rightarrow> string \<Rightarrow> 'w
    \<Rightarrow> (string \<times> RAGSharedData) \<times> 'w" where
  "ResponseGenerationNode_post sv shared prepRes execRes w =
     (case shared_queryResults shared of
        Some (r # rs) \<Rightarrow>
          (case generateResponseWithSources sv (orElse (shared_query shared) []) (r # rs)
                  (shared_intent shared) w of
             (responseWithSources, w') \<Rightarrow>
               ((''default'', shared\<lparr>shared_response := Some responseWithSources\<rparr>), w'))
      | _ \<Rightarrow> ((''default'', shared\<lparr>shared_response := Some execRes\<rparr>), w))"

subsubsection \<open>LLMFallbackNode\<close>

definition LLMFallbackNode_prep :: "RAGSharedData \<Rightarrow> js_error + string \<times> QueryIntent" where
  "LLMFallbackNode_prep shared =
     Inr (orElse (shared_query shared) [],
          (case shared_intent shared of None \<Rightarrow> generalIntent | Some i \<Rightarrow> i))"

definition LLMFallbackNode_exec ::
  "'w services \<Rightarrow> string \<times> QueryIntent \<Rightarrow> 'w \<Rightarrow> (js_error + string) \<times> 'w" where
  "LLMFallbackNode_exec sv input w =
     (case generateLLMFallback sv \<lparr>original = fst input, query_intent = snd input, expanded = []\<rparr> w of
        (s, w') \<Rightarrow> (Inr s, w'))"

definition LLMFallbackNode_post ::
  "RAGSharedData \<Rightarrow> string \<times> QueryIntent \<Rightarrow> string \<Rightarrow> 'w \<Rightarrow> (string \<times> RAGSharedData) \<times> 'w" where
  "LLMFallbackNode_post shared prepRes execRes w =
     ((''default'', shared\<lparr>shared_response := Some execRes\<rparr>), w)"

subsubsection \<open>MetadataEnhancementNode\<close>

definition MetadataEnhancementNode_prep :: "RAGSharedData \<Rightarrow> js_error + RAGSharedData" where
  "MetadataEnhancementNode_prep shared = Inr shared"

text \<open>\<open>x || 0\<close> for a similarity: 0 and \<open>NaN\<close> give 0.\<close>

definition numberOrZero :: "number \<Rightarrow> number" where
  "numberOrZero x = (if x = NaN then Num 0 else x)"

definition MetadataEnhancementNode_exec ::
  "'w services \<Rightarrow> RAGSharedData \<Rightarrow> 'w \<Rightarrow> (js_error + analytics) \<times> 'w" where
  "MetadataEnhancementNode_exec sv input w =
     (Inr \<lparr>analysis_intent = orElse (map_option intent_type (shared_intent input)) ''unknown'',
           analysis_confidence = (case shared_intent input of None \<Rightarrow> 0 | Some i \<Rightarrow> confidence i),
           analysis_expansions = (case shared_expandedQueries input of None \<Rightarrow> 0 | Some qs \<Rightarrow> length qs),
           documentsFound = (case shared_searchResults input of None \<Rightarrow> 0 | Some rs \<Rightarrow> length rs),
           topRelevance = (case shared_searchResults input of
                             Some (r # rs) \<Rightarrow> numberOrZero (similarity r)
                           | _ \<Rightarrow> Num 0),
           responseLength = (case shared_response input of None \<Rightarrow> 0 | Some s \<Rightarrow> length s),
           timestamp = clock_toISOString sv w\<rparr>, w)"

definition MetadataEnhancementNode_post ::
  "RAGSharedData \<Rightarrow> RAGSharedData \<Rightarrow> analytics \<Rightarrow> 'w \<Rightarrow> (string \<times> RAGSharedData) \<times> 'w" where
  "MetadataEnhancementNode_post shared prepRes execRes w =
     ((''default'', shared\<lparr>shared_metadata := Some execRes\<rparr>), w)"

subsubsection \<open>ErrorHandlingNode\<close>

definition ErrorHandlingNode_prep :: "RAGSharedData \<Rightarrow> js_error + string option \<times> js_error option" where
  "ErrorHandlingNode_prep shared = Inr (shared_query shared, shared_error shared)"

text \<open>The answer of the error stage (the warning sign of its first line is left out).\<close>

definition systemErrorMessage :: "string \<Rightarrow> string \<Rightarrow> string" where
  "systemErrorMessage q errorMessage =
     ''## System Error\<newline>\<newline>I encountered an issue while processing your query: '' @ quote @ q @ quote
     @ ''\<newline>\<newline>**Error Details:** '' @ errorMessage
     @ ''\<newline>\<newline>**What you can try:**\<newline>''
     @ ''- Rephrase your question using different keywords\<newline>''
     @ ''- Check if your query is related to the available documentation\<newline>''
     @ ''- Try a simpler, more specific question\<newline>\<newline>''
     @ ''If this error persists, please contact support.''"

definition ErrorHandlingNode_exec ::
  "string option \<times> js_error option \<Rightarrow> 'w \<Rightarrow> (js_error + string) \<times> 'w" where
  "ErrorHandlingNode_exec input w =
     (let errorMessage = orElse (map_option message (snd input)) ''Unknown error occurred'' in
      (Inr (systemErrorMessage (case fst input of None \<Rightarrow> ''undefined'' | Some q \<Rightarrow> q) errorMessage), w))"

definition ErrorHandlingNode_post ::
  "RAGSharedData \<Rightarrow> string option \<times> js_error option \<Rightarrow> string \<Rightarrow> 'w \<Rightarrow> (string \<times> RAGSharedData) \<times> 'w" where
  "ErrorHandlingNode_post shared prepRes execRes w =
     ((''default'', shared\<lparr>shared_response := Some execRes\<rparr>), w)"

subsection \<open>The flow\<close>

datatype stage =
  IntentStage | ExpansionStage | SearchStage | ContextStage | ResponseStage
  | FallbackStage | MetadataStage | ErrorStage

text \<open>The run of a node by its stage, with the retry budget that its constructor sets.\<close>

definition runStage ::
  "'w services \<Rightarrow> stage \<Rightarrow> RAGSharedData \<Rightarrow> 'w \<Rightarrow> (js_error + string \<times> RAGSharedData) \<times> 'w" where
  "runStage sv s shared w =
     (case s of
        IntentStage \<Rightarrow> runNode 3 QueryIntentNode_prep (QueryIntentNode_exec sv) QueryIntentNode_post shared w
      | ExpansionStage \<Rightarrow>
          runNode 2 QueryExpansionNode_prep (QueryExpansionNode_exec sv) QueryExpansionNode_post shared w
      | SearchStage \<Rightarrow>
          runNode 1 VectorSearchNode_prep (VectorSearchNode_exec sv) VectorSearchNode_post shared w
      | ContextStage \<Rightarrow>
          runNode 1 ContextBuildingNode_prep ContextBuildingNode_exec ContextBuildingNode_post shared w
      | ResponseStage \<Rightarrow>
          runNode 3 ResponseGenerationNode_prep (ResponseGenerationNode_exec sv)
            (ResponseGenerationNode_post sv) shared w
      | FallbackStage \<Rightarrow>
          runNode 2 LLMFallbackNode_prep (LLMFallbackNode_exec sv) LLMFallbackNode_post shared w
      | MetadataStage \<Rightarrow>
          runNode 1 MetadataEnhancementNode_prep (MetadataEnhancementNode_exec sv)
            MetadataEnhancementNode_post shared w
      | ErrorStage \<Rightarrow>
          runNode 1 ErrorHandlingNode_prep ErrorHandlingNode_exec ErrorHandlingNode_post shared w)"

text \<open>
  The successors that \<open>buildRAGFlow\<close> registers with \<open>next\<close> (the label
  \<open>default\<close>) and \<open>on\<close>: \<open>getNextNode\<close> of a stage for a label.
\<close>

definition getNextNode :: "stage \<Rightarrow> string \<Rightarrow> stage option" where
  "getNextNode s action =
     (case s of
        IntentStage \<Rightarrow>
          if action = ''default'' \<or> action = ''troubleshooting'' \<or> action = ''example''
          then Some ExpansionStage else None
      | ExpansionStage \<Rightarrow> if action = ''default'' then Some SearchStage else None
      | SearchStage \<Rightarrow>
          if action = ''no_results'' then Some FallbackStage
          else if action = ''high_confidence'' \<or> action = ''low_confidence'' then Some ContextStage
          else None
      | ContextStage \<Rightarrow> if action = ''default'' then Some ResponseStage else None
      | ResponseStage \<Rightarrow>
          if action = ''default'' then Some MetadataStage
          else if action = ''error'' then Some ErrorStage else None
      | FallbackStage \<Rightarrow>
          if action = ''default'' then Some MetadataStage
          else if action = ''error'' then Some ErrorStage else None
      | MetadataStage \<Rightarrow> None
      | ErrorStage \<Rightarrow> None)"

text \<open>The number of stages that can still follow a stage.\<close>

fun stageRank :: "stage \<Rightarrow> nat" where
  "stageRank IntentStage = 6"
| "stageRank ExpansionStage = 5"
| "stageRank SearchStage = 4"
| "stageRank ContextStage = 3"
| "stageRank ResponseStage = 2"
| "stageRank FallbackStage = 2"
| "stageRank MetadataStage = 1"
| "stageRank ErrorStage = 0"

text \<open>
  Modelled from the spec: the loop of \<open>Flow.run\<close>. The stages run one after the other
  on the shared data; the label that a stage returns selects the next stage, the run ends
  at a stage with no successor for the label, and an error raised by a stage ends the run
  and is raised to the caller of the flow. The result holds, beside the outcome, the
  stages that ran, in order, and the shared data as the run left it.
\<close>

function orchestrate ::
  "'w services \<Rightarrow> stage \<Rightarrow> RAGSharedData \<Rightarrow> 'w
    \<Rightarrow> (js_error + unit) \<times> stage list \<times> RAGSharedData \<times> 'w" where
  "orchestrate sv current shared w =
     (case runStage sv current shared w of
        (Inl err, w') \<Rightarrow> (Inl err, [current], shared, w')
      | (Inr (action, shared'), w') \<Rightarrow>
          (case getNextNode current action of
             None \<Rightarrow> (Inr (), [current], shared', w')
           | Some nextStage \<Rightarrow>
               (case orchestrate sv nextStage shared' w' of
                  (r, visited, shared'', w'') \<Rightarrow> (r, current # visited, shared'', w''))))"
  by pat_completeness auto
termination
  by (relation "measure (\<lambda>(sv, s, shared, w). stageRank s)")
     (auto simp: getNextNode_def split: stage.splits if_splits)

subsection \<open>PocketFlowRAGService.query\<close>

text \<open>
  The constructor of the service builds the flow, so the check \<open>!this.ragFlow\<close> at the
  start of \<open>query\<close> never fires. The caller gets a response object (\<open>Inr\<close>) or an
  exception (\<open>Inl\<close>).
\<close>

definition initialShared :: "string \<Rightarrow> RAGSharedData" where
  "initialShared q =
     \<lparr>shared_query = Some q, shared_intent = None, shared_expandedQueries = None,
      shared_searchResults = None, shared_queryResults = None, shared_context = None,
      shared_response = None, shared_metadata = None, shared_error = None\<rparr>"

definition query :: "'w services \<Rightarrow> string \<Rightarrow> 'w \<Rightarrow> (js_error + query_response) \<times> 'w" where
  "query sv q w =
     (case orchestrate sv IntentStage (initialShared q) w of
        (Inr u, visited, shared, w') \<Rightarrow>
          (Inr \<lparr>response = orElse (shared_response shared) ''No response generated'',
                metadata = map_option Analytics (shared_metadata shared)\<rparr>, w')
      | (Inl err, visited, shared, w') \<Rightarrow>
          (case runStage sv ErrorStage (shared\<lparr>shared_error := Some err\<rparr>) w' of
             (Inl err2, w'') \<Rightarrow> (Inl err2, w'')
           | (Inr (action, shared'), w'') \<Rightarrow>
               (Inr \<lparr>response = orElse (shared_response shared') ''System error occurred'',
                     metadata = Some (ErrorMarker (message err))\<rparr>, w'')))"


definition flowRaised :: "'w services \<Rightarrow> string \<Rightarrow> 'w \<Rightarrow> bool" where
  "flowRaised sv q w = (case orchestrate sv IntentStage (initialShared q) w of (r, visited, shared, w') \<Rightarrow> isl r)"

text \<open>
  A result of the flow is annotated when the flow raised or the metadata stage has left
  its analytics in the shared data.
\<close>

definition annotated :: "(js_error + unit) \<times> stage list \<times> RAGSharedData \<times> 'w \<Rightarrow> bool" where
  "annotated res = (case res of (r, visited, shared, w) \<Rightarrow> isl r \<or> shared_metadata shared \<noteq> None)"


section \<open>Concrete inputs\<close>

text \<open>
  A section text of 140 words and 1110 characters: a heading line, an empty line and a
  body of 138 words.
\<close>

definition doc140 :: string where
  "doc140 = ''# heading'' @ ''\<newline>\<newline>'' @ concat (replicate 137 ''lorem77 '') @ ''end''"






text \<open>
  An index of one file \<open>docs/a.md\<close> with its snapshot, a second file
  \<open>docs/b.md\<close>, and an empty file \<open>docs/empty.md\<close> with the chunk that
  \<open>createChunks\<close> makes of it.
\<close>

definition metaA :: EnhancedDocumentMetadata where
  "metaA = \<lparr>file_path = ''docs/a.md'', file_name = ''a.md'', file_hash = ''0a1f'',
     title = Some ''Alpha'', heading_structure = [], section_name = None, chunk_index = None,
     chunk_kind = Full_document\<rparr>"

definition metaB :: EnhancedDocumentMetadata where
  "metaB = \<lparr>file_path = ''docs/b.md'', file_name = ''b.md'', file_hash = ''7c2e'',
     title = Some ''Beta'', heading_structure = [], section_name = None, chunk_index = None,
     chunk_kind = Full_document\<rparr>"

definition metaE :: EnhancedDocumentMetadata where
  "metaE = \<lparr>file_path = ''docs/empty.md'', file_name = ''empty.md'', file_hash = ''e3b0'',
     title = Some [], heading_structure = [], section_name = None, chunk_index = None,
     chunk_kind = Full_document\<rparr>"

definition docA :: DocumentChunk where
  "docA = \<lparr>chunk_id = ''docs/a.md'', chunk_text = ''Alpha notes'', chunk_metadata = metaA\<rparr>"

definition docB :: DocumentChunk where
  "docB = \<lparr>chunk_id = ''docs/b.md'', chunk_text = ''Beta notes'', chunk_metadata = metaB\<rparr>"

definition docE :: DocumentChunk where
  "docE = \<lparr>chunk_id = ''docs/empty.md'', chunk_text = [], chunk_metadata = metaE\<rparr>"

definition storeA :: store where
  "storeA = \<lparr>documents = [(''docs/a.md'', docA)], embeddings = [(''docs/a.md'', Some [1, 0])]\<rparr>"

definition hashesA :: "(string \<times> string) list" where
  "hashesA = [(''docs/a.md'', ''0a1f'')]"

definition diskA :: disk where
  "diskA = \<lparr>documents_json = Some [docA], embeddings_json = Some [(''docs/a.md'', [1, 0])],
     file_hashes_json = Some hashesA\<rparr>"

definition embedOk :: "string \<Rightarrow> unit \<Rightarrow> (js_error + real list) \<times> unit" where
  "embedOk text w = (Inr [0, 1], w)"

definition noFailure :: "artifact \<Rightarrow> js_error option" where
  "noFailure a = None"




definition hashesAE :: "(string \<times> string) list" where
  "hashesAE = [(''docs/a.md'', ''0a1f''), (''docs/empty.md'', ''e3b0'')]"

text \<open>
  Collaborators for a run: a store whose search answers the queries \<open>alpha\<close> and
  \<open>beta\<close> and raises on every other query, and that has no method
  \<open>generateLLMFallbackResponse\<close>; and the same collaborators with a store whose search
  raises on every query.
\<close>

definition resultA :: QueryResult where
  "resultA = \<lparr>document = docA, similarity = Num 0.9\<rparr>"

definition resultB :: QueryResult where
  "resultB = \<lparr>document = docB, similarity = Num 0.8\<rparr>"

definition resultB2 :: QueryResult where
  "resultB2 = \<lparr>document = docB, similarity = Num 0.7\<rparr>"

definition demoSearch :: "string \<Rightarrow> nat \<Rightarrow> unit \<Rightarrow> (js_error + QueryResult list) \<times> unit" where
  "demoSearch q topK w =
     (if q = ''alpha'' then (Inr [resultA, resultB], w)
      else if q = ''beta'' then (Inr [resultB2], w)
      else (Inl (Error ''Failed to get embedding from Gemini API''), w))"


definition howToIntent :: QueryIntent where
  "howToIntent = \<lparr>intent_type = ''how-to'', confidence = 0.8\<rparr>"

definition demoServices :: "unit services" where
  "demoServices =
     \<lparr>gemini_classifyQueryIntent = (\<lambda>q w. (Inr howToIntent, w)),
      gemini_expandQuery = (\<lambda>q w. (Inr [''beta''], w)),
      gemini_generateText = (\<lambda>prompt w. (Inr ''Generated answer'', w)),
      processor_buildPrompt = (\<lambda>q ctx intent. ctx @ q),
      store_vectorSearch = Some demoSearch,
      store_generateLLMFallbackResponse = None,
      store_generateResponseWithSources = Some (\<lambda>q rs intent w. (Inr ''Answer with sources'', w)),
      clock_toISOString = (\<lambda>w. ''2025-07-18T11:43:55.578Z'')\<rparr>"




section \<open>Properties of the chunker\<close>

lemma window_consts: "wordsPerChunk = 166" "overlapWords = 33"
  by (simp_all add: wordsPerChunk_def overlapWords_def maxChunkSize_def chunkOverlap_def)

declare slidingWindowLoop.simps [simp del]

lemma slidingWindowLoop_length:
  "length (slidingWindowLoop i ws) = (length ws - i + 132) div 133"
proof (induction i ws rule: slidingWindowLoop.induct)
  case (1 i ws)
  show ?case
  proof (cases "i < length ws")
    case True
    have "length (slidingWindowLoop i ws) = Suc (length (slidingWindowLoop (i + 133) ws))"
      using True by (subst slidingWindowLoop.simps) (simp add: window_consts)
    also have "\<dots> = Suc ((length ws - (i + 133) + 132) div 133)"
      using 1 True by (simp add: window_consts)
    also have "\<dots> = (length ws - i + 132) div 133"
    proof (cases "length ws - i < 133")
      case True
      with \<open>i < length ws\<close> have "(length ws - i + 132) div 133 = 1"
        by (intro div_nat_eqI) simp_all
      with True show ?thesis by simp
    next
      case False
      then have "length ws - i + 132 = (length ws - (i + 133) + 132) + 133" by simp
      then show ?thesis by (simp only: div_add_self2)
    qed
    finally show ?thesis .
  next
    case False
    then show ?thesis by (subst slidingWindowLoop.simps) simp
  qed
qed

lemma slidingWindowLoop_nth:
  "k < length (slidingWindowLoop i ws) \<Longrightarrow>
   slidingWindowLoop i ws ! k = join '' '' (chunkWords (i + k * 133) ws)"
proof (induction i ws arbitrary: k rule: slidingWindowLoop.induct)
  case (1 i ws)
  show ?case
  proof (cases "i < length ws")
    case True
    have unf: "slidingWindowLoop i ws = join '' '' (chunkWords i ws) # slidingWindowLoop (i + 133) ws"
      using True by (subst slidingWindowLoop.simps) (simp add: window_consts)
    show ?thesis
    proof (cases k)
      case 0
      then show ?thesis by (simp add: unf)
    next
      case (Suc j)
      with "1.prems" unf have "j < length (slidingWindowLoop (i + 133) ws)" by simp
      with "1.IH" [OF True, of j] have "slidingWindowLoop (i + 133) ws ! j = join '' '' (chunkWords (i + 133 + j * 133) ws)"
        by (simp add: window_consts)
      then show ?thesis using Suc by (simp add: unf add.assoc add.commute)
    qed
  next
    case False
    with "1.prems" show ?thesis by (subst (asm) slidingWindowLoop.simps) simp
  qed
qed

lemma chunkWords_overlap:
  "drop 133 (chunkWords a ws) = take 33 (chunkWords (a + 133) ws)"
  by (simp add: chunkWords_def window_consts drop_take add.commute)


lemma ceiling_div_133: "\<lceil>real n / 133\<rceil> = int ((n + 132) div 133)"
proof -
  have "\<lceil>real n / 133\<rceil> = - \<lfloor>real_of_int (- int n) / real_of_int 133\<rfloor>"
    by (simp add: ceiling_def)
  also have "\<dots> = - ((- int n) div 133)"
    by (simp only: floor_divide_of_int_eq)
  also have "\<dots> = int ((n + 132) div 133)"
    by (simp add: zdiv_int)
  finally show ?thesis .
qed


text \<open>
  Claim C6, as the code has it: the loop starts a window at every multiple of
  \<open>wordsPerChunk - overlapWords\<close> below the number of words, so the number of chunks is
  the ceiling of \<open>len / (wordsPerChunk - overlapWords)\<close>. Chunk \<open>k\<close> is the text
  of the window that starts at word \<open>k * (wordsPerChunk - overlapWords)\<close>; what it
  has beyond the start of the next window is the first \<open>overlapWords\<close> words of the
  next window, or the whole next window when that is shorter: two consecutive windows share
  \<open>overlapWords\<close> words or all the words that are left, whichever is less.
\<close>

theorem C6_sliding_window_chunks:
  "int (length (slidingWindowChunk text)) =
     \<lceil>real (length (split_ws text)) / (real wordsPerChunk - real overlapWords)\<rceil>
   \<and> (\<forall>k. Suc k < length (slidingWindowChunk text) \<longrightarrow>
        slidingWindowChunk text ! k =
          join '' '' (chunkWords (k * (wordsPerChunk - overlapWords)) (split_ws text))
      \<and> slidingWindowChunk text ! Suc k =
          join '' '' (chunkWords (Suc k * (wordsPerChunk - overlapWords)) (split_ws text))
      \<and> drop (wordsPerChunk - overlapWords) (chunkWords (k * (wordsPerChunk - overlapWords)) (split_ws text))
          = take overlapWords (chunkWords (Suc k * (wordsPerChunk - overlapWords)) (split_ws text))
      \<and> length (take overlapWords (chunkWords (Suc k * (wordsPerChunk - overlapWords)) (split_ws text)))
          = min overlapWords (length (split_ws text) - Suc k * (wordsPerChunk - overlapWords)))"
proof -
  have len: "int (length (slidingWindowChunk text)) =
     \<lceil>real (length (split_ws text)) / (real wordsPerChunk - real overlapWords)\<rceil>"
    using ceiling_div_133 [of "length (split_ws text)"]
    by (simp add: slidingWindowChunk_def slidingWindowLoop_length window_consts)
  have "slidingWindowChunk text ! k = join '' '' (chunkWords (k * 133) (split_ws text))"
    if "k < length (slidingWindowChunk text)" for k
    using that slidingWindowLoop_nth [of k 0 "split_ws text"] by (simp add: slidingWindowChunk_def)
  moreover have "drop 133 (chunkWords (k * 133) (split_ws text)) = take 33 (chunkWords (Suc k * 133) (split_ws text))" for k
    using chunkWords_overlap [of "k * 133" "split_ws text"] by (simp add: add.commute)
  moreover have "length (take 33 (chunkWords (Suc k * 133) (split_ws text))) = min 33 (length (split_ws text) - Suc k * 133)" for k
    by (simp add: chunkWords_def window_consts)
  ultimately show ?thesis using len by (simp add: window_consts)
qed

lemma doc140_words:
  "split_ws doc140 = ''#'' # ''heading'' # replicate 137 ''lorem77'' @ [''end'']"
  unfolding doc140_def by code_simp

lemma doc140_length: "length doc140 = 1110"
  by (simp add: doc140_def length_concat sum_list_replicate)

lemma doc140_chunks:
  "slidingWindowChunk doc140 =
     [join '' '' (chunkWords 0 (split_ws doc140)), join '' '' (chunkWords 133 (split_ws doc140))]"
proof -
  have l: "length (slidingWindowChunk doc140) = 2"
    by (simp add: slidingWindowChunk_def slidingWindowLoop_length doc140_words)
  have "slidingWindowChunk doc140 ! k = join '' '' (chunkWords (k * 133) (split_ws doc140))"
    if "k < 2" for k
    using that l slidingWindowLoop_nth [of k 0 "split_ws doc140"] by (simp add: slidingWindowChunk_def)
  from this [of 0] this [of 1] l show ?thesis
    by (intro nth_equalityI) (auto simp: less_Suc_eq numeral_2_eq_2)
qed

lemma doc140_second_window:
  "chunkWords 133 (split_ws doc140) = replicate 6 ''lorem77'' @ [''end'']"
  by (simp add: doc140_words chunkWords_def window_consts)

text \<open>The theorem at a section of 140 words: two chunks, which share the 7 words of the second.\<close>

theorem C6_sliding_window_chunks_witness:
  "Suc 0 < length (slidingWindowChunk doc140)
   \<and> int (length (slidingWindowChunk doc140)) =
       \<lceil>real (length (split_ws doc140)) / (real wordsPerChunk - real overlapWords)\<rceil>
   \<and> drop (wordsPerChunk - overlapWords) (chunkWords 0 (split_ws doc140))
       = replicate 6 ''lorem77'' @ [''end'']"
  using C6_sliding_window_chunks [of doc140]
  by (simp add: doc140_chunks doc140_second_window window_consts)

text \<open>
  Claim C6 as stated fails at a section of 140 words and 1110 characters: the formula of
  the claim gives one chunk, the code makes two, and the second chunk has 7 words, so the
  two chunks cannot share the 33 words of the configured overlap.
\<close>

theorem C6_counterexample:
  "maxChunkSize < length doc140
   \<and> length (split_ws doc140) = 140
   \<and> length (slidingWindowChunk doc140) = 2
   \<and> spec_window_count 140 = 1
   \<and> slidingWindowChunk doc140 ! 1 = ''lorem77 lorem77 lorem77 lorem77 lorem77 lorem77 end''
   \<and> overlapWords = 33"
proof -
  have "join '' '' (replicate 6 ''lorem77'' @ [''end''])
        = ''lorem77 lorem77 lorem77 lorem77 lorem77 lorem77 end''"
    by code_simp
  then have "slidingWindowChunk doc140 ! 1 = ''lorem77 lorem77 lorem77 lorem77 lorem77 lorem77 end''"
    by (simp add: doc140_chunks doc140_second_window)
  moreover have "spec_window_count 140 = 1"
    by (simp add: spec_window_count_def window_consts)
  moreover have "length (slidingWindowChunk doc140) = 2"
    by (simp add: doc140_chunks)
  moreover have "length (split_ws doc140) = 140"
    by (simp add: doc140_words)
  ultimately show ?thesis
    by (simp add: doc140_length maxChunkSize_def window_consts)
qed

declare toString.simps [simp del]


lemma of_char_digit: "d < 10 \<Longrightarrow> (of_char (digit d) :: nat) = 48 + d"
  by (simp add: digit_def)



lemma digit_not_hash: "d < 10 \<Longrightarrow> digit d \<noteq> CHR ''#''"
proof
  assume d: "d < 10" and e: "digit d = CHR ''#''"
  from of_char_digit [OF d] have "(of_char (CHR ''#'') :: nat) = 48 + d" unfolding e .
  then show False by simp
qed




















section \<open>Properties of the index store\<close>









lemma set_js_Set_aux: "set (fold (\<lambda>x acc. if x \<in> set acc then acc else acc @ [x]) xs ys) = set xs \<union> set ys"
  by (induction xs arbitrary: ys) auto

lemma set_js_Set: "set (js_Set xs) = set xs"
  by (simp add: js_Set_def set_js_Set_aux)

lemma concat_map_Nil: "(\<And>x. x \<in> set xs \<Longrightarrow> f x = []) \<Longrightarrow> concat (map f xs) = []"
  by (induction xs) auto

lemma in_currentFilesPaths:
  "p \<in> set (currentFilesPaths currentDocuments) \<longleftrightarrow>
   (\<exists>doc\<in>set currentDocuments. p = file_path (chunk_metadata doc))"
  unfolding currentFilesPaths_def set_js_Set by (simp add: image_iff)

lemma in_storedFilePaths:
  "p \<in> set (storedFilePaths st) \<longleftrightarrow>
   (\<exists>doc\<in>snd ` set (documents st). p = file_path (chunk_metadata doc))"
  unfolding storedFilePaths_def set_js_Set by (simp add: image_iff)

lemma unchanged_nothing_to_insert:
  assumes "\<forall>doc\<in>set currentDocuments. \<exists>h. map_of fileHashes (file_path (chunk_metadata doc)) = Some h \<and> h \<noteq> []"
  shows "documentsToInsert currentDocuments fileHashes fileHashes = []"
  unfolding documentsToInsert_def
proof (rule concat_map_Nil)
  fix p assume "p \<in> set (currentFilesPaths currentDocuments)"
  then obtain doc where doc: "doc \<in> set currentDocuments" "p = file_path (chunk_metadata doc)"
    unfolding in_currentFilesPaths by blast
  from assms doc(1) obtain h where "map_of fileHashes (file_path (chunk_metadata doc)) = Some h" "h \<noteq> []"
    by blast
  then have "\<not> noStoredHash fileHashes p" unfolding doc(2) noStoredHash_def by simp
  then show "(if noStoredHash fileHashes p then chunksOfFile currentDocuments p
              else if map_of fileHashes p \<noteq> map_of fileHashes p then chunksOfFile currentDocuments p else []) = []"
    by simp
qed

lemma unchanged_nothing_to_delete:
  assumes "\<forall>doc\<in>set currentDocuments. \<exists>h. map_of fileHashes (file_path (chunk_metadata doc)) = Some h \<and> h \<noteq> []"
    and "\<forall>doc\<in>snd ` set (documents st). \<exists>cur\<in>set currentDocuments.
           file_path (chunk_metadata doc) = file_path (chunk_metadata cur)"
  shows "documentIdsToDelete currentDocuments fileHashes fileHashes st = []"
proof -
  have "concat (map (\<lambda>p. if p \<notin> set (currentFilesPaths currentDocuments) then chunkIdsOfFile st p else [])
               (storedFilePaths st)) = []"
  proof (rule concat_map_Nil)
    fix p assume "p \<in> set (storedFilePaths st)"
    then obtain doc where doc: "doc \<in> snd ` set (documents st)" "p = file_path (chunk_metadata doc)"
      unfolding in_storedFilePaths by blast
    from assms(2) doc(1) obtain cur where "cur \<in> set currentDocuments"
      "file_path (chunk_metadata doc) = file_path (chunk_metadata cur)" by blast
    then have "p \<in> set (currentFilesPaths currentDocuments)"
      unfolding in_currentFilesPaths doc(2) by blast
    then show "(if p \<notin> set (currentFilesPaths currentDocuments) then chunkIdsOfFile st p else []) = []"
      by simp
  qed
  moreover have "concat (map (\<lambda>p. if noStoredHash fileHashes p then []
                        else if map_of fileHashes p \<noteq> map_of fileHashes p
                        then chunkIdsOfFile st p else [])
               (currentFilesPaths currentDocuments)) = []"
    by (rule concat_map_Nil) simp
  ultimately show ?thesis unfolding documentIdsToDelete_def by (simp only: append_Nil)
qed

lemma reconcile_unchanged_noop:
  assumes "file_hashes_json d = Some currentFileHashes"
    and "\<forall>doc\<in>set currentDocuments.
           \<exists>h. map_of currentFileHashes (file_path (chunk_metadata doc)) = Some h \<and> h \<noteq> []"
    and "\<forall>doc\<in>snd ` set (documents st). \<exists>cur\<in>set currentDocuments.
           file_path (chunk_metadata doc) = file_path (chunk_metadata cur)"
  shows "documentsToInsert currentDocuments currentFileHashes (loadStoredFileHashes d) = []
       \<and> documentIdsToDelete currentDocuments currentFileHashes (loadStoredFileHashes d) st = []
       \<and> performIncrementalUpdate embedContent writeError currentDocuments currentFileHashes st d w
           = (Inr (), st, d, w)"
proof -
  have l: "loadStoredFileHashes d = currentFileHashes"
    using assms(1) by (simp add: loadStoredFileHashes_def)
  have i: "documentsToInsert currentDocuments currentFileHashes currentFileHashes = []"
    using assms(2) by (rule unchanged_nothing_to_insert)
  have e: "documentIdsToDelete currentDocuments currentFileHashes currentFileHashes st = []"
    using assms(2,3) by (rule unchanged_nothing_to_delete)
  have "performIncrementalUpdate embedContent writeError currentDocuments currentFileHashes st d w
           = (Inr (), st, d, w)"
    unfolding performIncrementalUpdate_def Let_def l i e by simp
  with i e show ?thesis unfolding l by simp
qed

text \<open>
  Claim C9: when the persisted table of file hashes is the table of the current scan,
  every current chunk belongs to a file with a (non-empty) hash in that table, and every
  stored chunk belongs to a file that still has chunks, then the incremental update finds
  nothing to insert and nothing to delete, and returns with the store, the snapshot and
  the outside world as they were.
\<close>

theorem C9_reconcile_unchanged_is_noop:
  assumes "file_hashes_json d = Some currentFileHashes"
    and "\<forall>doc\<in>set currentDocuments.
           \<exists>h. map_of currentFileHashes (file_path (chunk_metadata doc)) = Some h \<and> h \<noteq> []"
    and "\<forall>doc\<in>snd ` set (documents st). \<exists>cur\<in>set currentDocuments.
           file_path (chunk_metadata doc) = file_path (chunk_metadata cur)"
  shows "documentsToInsert currentDocuments currentFileHashes (loadStoredFileHashes d) = []
       \<and> documentIdsToDelete currentDocuments currentFileHashes (loadStoredFileHashes d) st = []
       \<and> performIncrementalUpdate embedContent writeError currentDocuments currentFileHashes st d w
           = (Inr (), st, d, w)"
  using assms by (rule reconcile_unchanged_noop)

text \<open>The theorem at the index of the one file \<open>docs/a.md\<close>, scanned again unchanged.\<close>

theorem C9_reconcile_unchanged_is_noop_witness:
  "file_hashes_json diskA = Some hashesA
   \<and> documentsToInsert [docA] hashesA (loadStoredFileHashes diskA) = []
   \<and> documentIdsToDelete [docA] hashesA (loadStoredFileHashes diskA) storeA = []
   \<and> performIncrementalUpdate embedOk noFailure [docA] hashesA storeA diskA ()
       = (Inr (), storeA, diskA, ())"
proof -
  have 1: "file_hashes_json diskA = Some hashesA" by (simp add: diskA_def)
  have 2: "\<forall>doc\<in>set [docA]. \<exists>h. map_of hashesA (file_path (chunk_metadata doc)) = Some h \<and> h \<noteq> []"
    by (simp add: hashesA_def docA_def metaA_def)
  have 3: "\<forall>doc\<in>snd ` set (documents storeA). \<exists>cur\<in>set [docA].
           file_path (chunk_metadata doc) = file_path (chunk_metadata cur)"
    by (simp add: storeA_def)
  from C9_reconcile_unchanged_is_noop [OF 1 2 3, of embedOk noFailure "()"] 1
  show ?thesis by (intro conjI) (erule conjunct1 conjunct2 [THEN conjunct1] conjunct2 [THEN conjunct2] | assumption)+
qed

lemma list_all_update:
  "list_all P al \<Longrightarrow> P (k, v) \<Longrightarrow> list_all P (AList.update k v al)"
  by (induction al) auto

lemma storeIfValid_embedded: "embedded st \<Longrightarrow> embedded (storeIfValid p st)"
proof (cases p)
  case (Pair doc embedding)
  assume "embedded st"
  then show ?thesis
    by (auto simp: Pair embedded_def storeIfValid_def update_keys intro: list_all_update)
qed

lemma fold_storeIfValid_embedded: "embedded st \<Longrightarrow> embedded (fold storeIfValid ps st)"
  by (induction ps arbitrary: st) (simp_all add: storeIfValid_embedded)

declare buildLoop.simps [simp del]

lemma buildLoop_embedded:
  "embedded st \<Longrightarrow> buildLoop embedContent i validDocuments st w = (st', w') \<Longrightarrow> embedded st'"
proof (induction embedContent i validDocuments st w rule: buildLoop.induct)
  case (1 embedContent i validDocuments st w)
  show ?case
  proof (cases "i < length validDocuments")
    case True
    obtain embs w1 where g: "getTextEmbeddings embedContent (map chunk_text (take 10 (drop i validDocuments))) w = (embs, w1)"
      by (cases "getTextEmbeddings embedContent (map chunk_text (take 10 (drop i validDocuments))) w")
    let ?st1 = "fold storeIfValid (zip (take 10 (drop i validDocuments)) embs) st"
    have "buildLoop embedContent i validDocuments st w = buildLoop embedContent (i + 10) validDocuments ?st1 w1"
      using True g by (subst buildLoop.simps) (simp add: Let_def)
    with "1.prems"(2) have r: "buildLoop embedContent (i + 10) validDocuments ?st1 w1 = (st', w')" by simp
    have e: "embedded ?st1" using "1.prems"(1) by (rule fold_storeIfValid_embedded)
    from "1.IH" [OF True refl g [symmetric] e r] show ?thesis .
  next
    case False
    with "1.prems" show ?thesis by (subst (asm) buildLoop.simps) simp
  qed
qed

lemma buildIndexFromScratch_embedded:
  assumes "buildIndexFromScratch embedContent writeError currentDocuments currentFileHashes st d w = (r, st', d', w')"
  shows "embedded st'"
proof -
  obtain st1 w1 where b: "buildLoop embedContent 0 (filter (\<lambda>doc. \<not> isBlank (chunk_text doc)) currentDocuments)
      \<lparr>documents = [], embeddings = []\<rparr> w = (st1, w1)" by (cases "buildLoop embedContent 0 (filter (\<lambda>doc. \<not> isBlank (chunk_text doc)) currentDocuments)
      \<lparr>documents = [], embeddings = []\<rparr> w")
  have "embedded \<lparr>documents = [], embeddings = []\<rparr>" by (simp add: embedded_def)
  then have "embedded st1" using b by (rule buildLoop_embedded)
  moreover from assms b have "st' = st1"
    by (auto simp: buildIndexFromScratch_def Let_def split: sum.splits prod.splits)
  ultimately show ?thesis by simp
qed

lemma saveIndex_snapshotAfter:
  "saveIndex writeError st d = (r, d') \<Longrightarrow>
   snapshotAfter writeError st fileHashes d
     (case r of Inl e \<Rightarrow> Inl e | Inr u \<Rightarrow> Inr ())
     (case r of Inl e \<Rightarrow> d' | Inr u \<Rightarrow> saveStoredFileHashes writeError fileHashes d')"
  by (auto simp: saveIndex_def snapshotAfter_def saveStoredFileHashes_def Let_def split: option.splits)

lemma buildIndexFromScratch_snapshot:
  "buildIndexFromScratch embedContent writeError currentDocuments currentFileHashes st d w = (r, st', d', w')
   \<Longrightarrow> snapshotAfter writeError st' currentFileHashes d r d'"
proof -
  assume a: "buildIndexFromScratch embedContent writeError currentDocuments currentFileHashes st d w = (r, st', d', w')"
  obtain st1 w1 where b: "buildLoop embedContent 0 (filter (\<lambda>doc. \<not> isBlank (chunk_text doc)) currentDocuments)
      \<lparr>documents = [], embeddings = []\<rparr> w = (st1, w1)" by (cases "buildLoop embedContent 0 (filter (\<lambda>doc. \<not> isBlank (chunk_text doc)) currentDocuments)
      \<lparr>documents = [], embeddings = []\<rparr> w")
  obtain r1 d1 where s: "saveIndex writeError st1 d = (r1, d1)" by (cases "saveIndex writeError st1 d")
  from a b s have "st' = st1" "r = (case r1 of Inl e \<Rightarrow> Inl e | Inr u \<Rightarrow> Inr ())"
    "d' = (case r1 of Inl e \<Rightarrow> d1 | Inr u \<Rightarrow> saveStoredFileHashes writeError currentFileHashes d1)"
    by (auto simp: buildIndexFromScratch_def Let_def split: sum.splits)
  with saveIndex_snapshotAfter [OF s, of currentFileHashes] show ?thesis by simp
qed



lemma set_update_subset: "set (AList.update k v al) \<subseteq> insert (k, v) (set al)"
  by (induction al) auto

lemma storeIfValid_documents:
  "snd ` set (documents (storeIfValid (doc, e) st)) \<subseteq> insert doc (snd ` set (documents st))"
proof (cases "e = []")
  case True
  then show ?thesis by (auto simp: storeIfValid_def)
next
  case False
  have "snd ` set (AList.update (chunk_id doc) doc (documents st))
        \<subseteq> snd ` insert (chunk_id doc, doc) (set (documents st))"
    by (rule image_mono) (rule set_update_subset)
  with False show ?thesis by (simp add: storeIfValid_def)
qed

lemma fold_storeIfValid_documents:
  "snd ` set (documents (fold storeIfValid ps st)) \<subseteq> fst ` set ps \<union> snd ` set (documents st)"
proof (induction ps arbitrary: st)
  case Nil
  then show ?case by simp
next
  case (Cons p ps)
  obtain doc e where p: "p = (doc, e)" by (cases p)
  from Cons.IH [of "storeIfValid p st"] storeIfValid_documents [of doc e st]
  show ?case unfolding p by auto
qed

lemma buildLoop_documents:
  "buildLoop embedContent i validDocuments st w = (st', w') \<Longrightarrow>
   snd ` set (documents st') \<subseteq> set validDocuments \<union> snd ` set (documents st)"
proof (induction embedContent i validDocuments st w rule: buildLoop.induct)
  case (1 embedContent i validDocuments st w)
  show ?case
  proof (cases "i < length validDocuments")
    case True
    let ?batch = "take 10 (drop i validDocuments)"
    obtain embs w1 where g: "getTextEmbeddings embedContent (map chunk_text ?batch) w = (embs, w1)"
      by (cases "getTextEmbeddings embedContent (map chunk_text ?batch) w")
    let ?st1 = "fold storeIfValid (zip ?batch embs) st"
    have "buildLoop embedContent i validDocuments st w = buildLoop embedContent (i + 10) validDocuments ?st1 w1"
      using True g by (subst buildLoop.simps) (simp add: Let_def)
    with "1.prems" have r: "buildLoop embedContent (i + 10) validDocuments ?st1 w1 = (st', w')" by simp
    from "1.IH" [OF True refl g [symmetric] r]
    have a: "snd ` set (documents st') \<subseteq> set validDocuments \<union> snd ` set (documents ?st1)" .
    have "fst ` set (zip ?batch embs) \<subseteq> set ?batch" by (auto dest: set_zip_leftD)
    moreover have "set ?batch \<subseteq> set validDocuments"
      by (meson set_take_subset set_drop_subset subset_trans)
    ultimately have "snd ` set (documents ?st1) \<subseteq> set validDocuments \<union> snd ` set (documents st)"
      using fold_storeIfValid_documents [of "zip ?batch embs" st] by blast
    with a show ?thesis by blast
  next
    case False
    with "1.prems" show ?thesis by (subst (asm) buildLoop.simps) auto
  qed
qed

lemma buildIndexFromScratch_documents:
  assumes "buildIndexFromScratch embedContent writeError currentDocuments currentFileHashes st d w = (r, st', d', w')"
  shows "snd ` set (documents st') \<subseteq> set currentDocuments"
proof -
  let ?valid = "filter (\<lambda>doc. \<not> isBlank (chunk_text doc)) currentDocuments"
  obtain st1 w1 where b: "buildLoop embedContent 0 ?valid \<lparr>documents = [], embeddings = []\<rparr> w = (st1, w1)"
    by (cases "buildLoop embedContent 0 ?valid \<lparr>documents = [], embeddings = []\<rparr> w")
  from buildLoop_documents [OF b] have "snd ` set (documents st1) \<subseteq> set currentDocuments" by auto
  moreover from assms b have "st' = st1"
    by (auto simp: buildIndexFromScratch_def Let_def split: sum.splits prod.splits)
  ultimately show ?thesis by simp
qed

text \<open>
  A full build that returns normally and wrote the file hashes leaves a store and a
  snapshot on which the update for the same scan changes nothing.
\<close>

lemma rescan_after_full_build_noop:
  assumes build: "buildIndexFromScratch embedContent writeError currentDocuments currentFileHashes st0 d0 w0
      = (Inr (), st, d, w)"
    and written: "writeError FileHashesFile = None"
    and hashed: "\<forall>doc\<in>set currentDocuments.
           \<exists>h. map_of currentFileHashes (file_path (chunk_metadata doc)) = Some h \<and> h \<noteq> []"
  shows "performIncrementalUpdate embedContent' writeError' currentDocuments currentFileHashes st d w'
      = (Inr (), st, d, w')"
proof -
  from buildIndexFromScratch_snapshot [OF build] written
  have "file_hashes_json d = Some currentFileHashes"
    by (auto simp: snapshotAfter_def split: option.splits)
  moreover from buildIndexFromScratch_documents [OF build]
  have "\<forall>doc\<in>snd ` set (documents st). \<exists>cur\<in>set currentDocuments.
           file_path (chunk_metadata doc) = file_path (chunk_metadata cur)" by blast
  ultimately show ?thesis
    using hashed reconcile_unchanged_noop [of d currentFileHashes currentDocuments st embedContent' writeError' w']
    by blast
qed

lemma js_Set_Cons_simps:
  "js_Set [] = []" "js_Set [x] = [x]" "js_Set [x, y] = (if y = x then [x] else [x, y])"
  by (simp_all add: js_Set_def)

lemma update_AE_evaluated:
  "performIncrementalUpdate embedOk noFailure [docA, docE] hashesAE storeA diskA ()
     = (Inr (),
        \<lparr>documents = [(''docs/a.md'', docA), (''docs/empty.md'', docE)],
         embeddings = [(''docs/a.md'', Some [1, 0]), (''docs/empty.md'', None)]\<rparr>,
        \<lparr>documents_json = Some [docA, docE],
         embeddings_json = Some [(''docs/a.md'', [1, 0])],
         file_hashes_json = Some hashesAE\<rparr>, ())"
proof -
  have p: "currentFilesPaths [docA, docE] = [''docs/a.md'', ''docs/empty.md'']"
    by (simp add: currentFilesPaths_def js_Set_Cons_simps docA_def docE_def metaA_def metaE_def)
  have s: "storedFilePaths storeA = [''docs/a.md'']"
    by (simp add: storedFilePaths_def js_Set_Cons_simps storeA_def docA_def metaA_def)
  have l: "loadStoredFileHashes diskA = hashesA"
    by (simp add: loadStoredFileHashes_def diskA_def)
  have i: "documentsToInsert [docA, docE] hashesAE hashesA = [docE]"
    unfolding documentsToInsert_def p
    by (simp add: noStoredHash_def hashesA_def hashesAE_def chunksOfFile_def
        docA_def docE_def metaA_def metaE_def)
  have e: "documentIdsToDelete [docA, docE] hashesAE hashesA storeA = []"
    unfolding documentIdsToDelete_def p s
    by (simp add: noStoredHash_def hashesA_def hashesAE_def)
  have g: "getTextEmbeddings embedOk (map chunk_text [docE]) () = ([], ())"
    by (simp add: getTextEmbeddings_def isBlank_def docE_def)
  have k: "chunk_id docE = ''docs/empty.md''"
    by (simp add: docE_def)
  show ?thesis
    unfolding performIncrementalUpdate_def Let_def l i e g
    by (simp add: k applyInsertion_def saveIndex_def saveStoredFileHashes_def noFailure_def
        stringifyEmbeddings_def List.map_filter_def storeA_def diskA_def)
qed

text \<open>
  Claim C3 is what \<open>buildIndexFromScratch\<close> does (lemma
  \<open>buildIndexFromScratch_embedded\<close>) and what \<open>performIncrementalUpdate\<close> misses:
  it stores every chunk to insert with \<open>embeddings[i]\<close> unchecked. Here an empty file
  \<open>docs/empty.md\<close> is added to the index of \<open>docs/a.md\<close>. The chunker makes one
  chunk with empty text of it, \<open>getTextEmbeddings\<close> drops the empty text and returns
  no embedding, and the update keeps the chunk in the store with the embedding
  \<open>undefined\<close> and writes it to \<open>documents.json\<close>, with no entry in
  \<open>embeddings.json\<close>.
\<close>

theorem C3_incremental_update_keeps_chunk_without_embedding:
  "createChunks [] (extractSections []) metaE = [docE]
   \<and> embedded storeA
   \<and> (case performIncrementalUpdate embedOk noFailure [docA, docE] hashesAE storeA diskA () of
        (r, st', d', w') \<Rightarrow>
          r = Inr ()
          \<and> map_of (documents st') ''docs/empty.md'' = Some docE
          \<and> map_of (embeddings st') ''docs/empty.md'' = Some None
          \<and> \<not> embedded st'
          \<and> documents_json d' = Some [docA, docE]
          \<and> embeddings_json d' = Some [(''docs/a.md'', [1, 0])])"
proof -
  have "createChunks [] (extractSections []) metaE = [docE]"
    by (simp add: createChunks_def docE_def metaE_def)
  moreover have "embedded storeA"
    by (simp add: embedded_def storeA_def)
  ultimately show ?thesis
    unfolding update_AE_evaluated by (simp add: embedded_def)
qed





section \<open>Properties of the query workflow\<close>

declare orchestrate.simps [simp del]

lemma orchestrate_raise:
  "runStage sv s shared w = (Inl err, w1) \<Longrightarrow> orchestrate sv s shared w = (Inl err, [s], shared, w1)"
  by (subst orchestrate.simps) simp

lemma orchestrate_end:
  "runStage sv s shared w = (Inr (action, shared1), w1) \<Longrightarrow> getNextNode s action = None \<Longrightarrow>
   orchestrate sv s shared w = (Inr (), [s], shared1, w1)"
  by (subst orchestrate.simps) simp

lemma orchestrate_next:
  "runStage sv s shared w = (Inr (action, shared1), w1) \<Longrightarrow> getNextNode s action = Some t \<Longrightarrow>
   orchestrate sv s shared w =
     (case orchestrate sv t shared1 w1 of (r, visited, shared2, w2) \<Rightarrow> (r, s # visited, shared2, w2))"
  by (subst orchestrate.simps) simp

lemma execWithRetries_total:
  "(\<And>w. \<exists>r w'. exec p w = (Inr r, w')) \<Longrightarrow> execWithRetries n exec p w = exec p w"
proof (induction n exec p w rule: execWithRetries.induct)
  case (1 n exec p w)
  from "1.prems" [of w] obtain r w' where "exec p w = (Inr r, w')" by blast
  then show ?case by simp
qed simp_all

lemma runStage_Metadata:
  "\<exists>a. runStage sv MetadataStage shared w = (Inr (''default'', shared\<lparr>shared_metadata := Some a\<rparr>), w)
     \<and> documentsFound a = (case shared_searchResults shared of None \<Rightarrow> 0 | Some rs \<Rightarrow> length rs)"
  by (auto simp: runStage_def runNode_def MetadataEnhancementNode_prep_def
      MetadataEnhancementNode_exec_def MetadataEnhancementNode_post_def)

lemma systemErrorMessage_not_Nil: "systemErrorMessage q m \<noteq> []"
  by (simp add: systemErrorMessage_def)

lemma runStage_Error:
  "\<exists>s. s \<noteq> [] \<and> runStage sv ErrorStage shared w = (Inr (''default'', shared\<lparr>shared_response := Some s\<rparr>), w)"
  using systemErrorMessage_not_Nil
  by (auto simp: runStage_def runNode_def ErrorHandlingNode_prep_def
      ErrorHandlingNode_exec_def ErrorHandlingNode_post_def Let_def)

lemma runStage_Context:
  "\<exists>c. runStage sv ContextStage shared w = (Inr (''default'', shared\<lparr>shared_context := Some c\<rparr>), w)"
  by (auto simp: runStage_def runNode_def ContextBuildingNode_prep_def
      ContextBuildingNode_exec_def ContextBuildingNode_post_def)

lemma LLMFallbackNode_exec_total: "\<exists>r w'. LLMFallbackNode_exec sv p w = (Inr r, w')"
  by (simp add: LLMFallbackNode_exec_def split: prod.splits)

lemma runStage_Fallback:
  "\<exists>s w'. runStage sv FallbackStage shared w = (Inr (''default'', shared\<lparr>shared_response := Some s\<rparr>), w')"
proof -
  let ?p = "(orElse (shared_query shared) [],
          (case shared_intent shared of None \<Rightarrow> generalIntent | Some i \<Rightarrow> i))"
  obtain r w' where e: "LLMFallbackNode_exec sv ?p w = (Inr r, w')"
    using LLMFallbackNode_exec_total [of sv ?p w] by blast
  have "execWithRetries 2 (LLMFallbackNode_exec sv) ?p w = LLMFallbackNode_exec sv ?p w"
    by (rule execWithRetries_total) (rule LLMFallbackNode_exec_total)
  with e show ?thesis
    by (auto simp: runStage_def runNode_def LLMFallbackNode_prep_def LLMFallbackNode_post_def)
qed

lemma QueryExpansionNode_exec_total: "\<exists>r w'. QueryExpansionNode_exec sv p w = (Inr r, w')"
  by (auto simp: QueryExpansionNode_exec_def split: prod.splits sum.splits)

lemma runStage_Expansion:
  "\<exists>qs w'. runStage sv ExpansionStage shared w =
     (Inr (''default'', shared\<lparr>shared_expandedQueries := Some qs\<rparr>), w')"
proof -
  let ?p = "orElse (shared_query shared) []"
  obtain r w' where e: "QueryExpansionNode_exec sv ?p w = (Inr r, w')"
    using QueryExpansionNode_exec_total [of sv ?p w] by blast
  have "execWithRetries 2 (QueryExpansionNode_exec sv) ?p w = QueryExpansionNode_exec sv ?p w"
    by (rule execWithRetries_total) (rule QueryExpansionNode_exec_total)
  with e show ?thesis
    by (auto simp: runStage_def runNode_def QueryExpansionNode_prep_def QueryExpansionNode_post_def)
qed

lemma QueryIntentNode_exec_total: "\<exists>r w'. QueryIntentNode_exec sv p w = (Inr r, w')"
  by (auto simp: QueryIntentNode_exec_def split: prod.splits sum.splits)

lemma runStage_Intent_ok:
  assumes "QueryIntentNode_prep shared = Inr p"
  shows "\<exists>action i w'. runStage sv IntentStage shared w = (Inr (action, shared\<lparr>shared_intent := Some i\<rparr>), w')
        \<and> getNextNode IntentStage action = Some ExpansionStage"
proof -
  obtain r w' where e: "QueryIntentNode_exec sv p w = (Inr r, w')"
    using QueryIntentNode_exec_total [of sv p w] by blast
  have "execWithRetries 3 (QueryIntentNode_exec sv) p w = QueryIntentNode_exec sv p w"
    by (rule execWithRetries_total) (rule QueryIntentNode_exec_total)
  with e assms show ?thesis
    by (auto simp: runStage_def runNode_def QueryIntentNode_post_def getNextNode_def)
qed

lemma runStage_Intent:
  "(\<exists>err. runStage sv IntentStage shared w = (Inl err, w))
   \<or> (\<exists>action i w'. runStage sv IntentStage shared w = (Inr (action, shared\<lparr>shared_intent := Some i\<rparr>), w')
        \<and> getNextNode IntentStage action = Some ExpansionStage)"
proof (cases "QueryIntentNode_prep shared")
  case (Inl err)
  then show ?thesis by (simp add: runStage_def runNode_def)
next
  case (Inr p)
  from runStage_Intent_ok [OF this, of sv w] show ?thesis by (rule disjI2)
qed

lemma runStage_Search_eq:
  "runStage sv SearchStage shared w =
     (case searchLoop sv (orElse (shared_query shared) []
              # (case shared_expandedQueries shared of None \<Rightarrow> [] | Some qs \<Rightarrow> qs)) [] w of
        (results, w') \<Rightarrow>
          (Inr (if length (take 5 (uniqueResults results)) = 0 then ''no_results''
                else if 3 \<le> length (take 5 (uniqueResults results)) then ''high_confidence''
                else ''low_confidence'',
                shared\<lparr>shared_searchResults := Some (take 5 (uniqueResults results)),
                       shared_queryResults := Some (take 5 (uniqueResults results))\<rparr>), w'))"
  by (simp add: runStage_def runNode_def VectorSearchNode_prep_def VectorSearchNode_exec_def
      VectorSearchNode_post_def split: prod.splits)

lemma runStage_Search:
  "\<exists>action rs w'. runStage sv SearchStage shared w =
      (Inr (action, shared\<lparr>shared_searchResults := Some rs, shared_queryResults := Some rs\<rparr>), w')
    \<and> (getNextNode SearchStage action = Some FallbackStage \<and> rs = []
        \<or> getNextNode SearchStage action = Some ContextStage \<and> rs \<noteq> [])"
proof -
  obtain results w' where l: "searchLoop sv (orElse (shared_query shared) []
              # (case shared_expandedQueries shared of None \<Rightarrow> [] | Some qs \<Rightarrow> qs)) [] w = (results, w')"
    by (cases "searchLoop sv (orElse (shared_query shared) []
              # (case shared_expandedQueries shared of None \<Rightarrow> [] | Some qs \<Rightarrow> qs)) [] w")
  let ?rs = "take 5 (uniqueResults results)"
  show ?thesis
  proof (cases "?rs = []")
    case True
    have "runStage sv SearchStage shared w =
      (Inr (''no_results'', shared\<lparr>shared_searchResults := Some ?rs, shared_queryResults := Some ?rs\<rparr>), w')"
      unfolding runStage_Search_eq l using True by simp
    moreover have "getNextNode SearchStage ''no_results'' = Some FallbackStage"
      by (simp add: getNextNode_def)
    ultimately show ?thesis using True by blast
  next
    case False
    let ?a = "if 3 \<le> length ?rs then ''high_confidence'' else ''low_confidence''"
    have "runStage sv SearchStage shared w =
      (Inr (?a, shared\<lparr>shared_searchResults := Some ?rs, shared_queryResults := Some ?rs\<rparr>), w')"
      unfolding runStage_Search_eq l using False by auto
    moreover have "getNextNode SearchStage ?a = Some ContextStage"
      by (simp add: getNextNode_def)
    ultimately show ?thesis using False by blast
  qed
qed

lemma ResponseGenerationNode_post_default:
  "\<exists>shared1 w'. ResponseGenerationNode_post sv shared p r w = ((''default'', shared1), w')"
  by (simp add: ResponseGenerationNode_post_def split: option.splits list.splits prod.splits)

lemma runStage_Response:
  "(\<exists>err w'. runStage sv ResponseStage shared w = (Inl err, w'))
   \<or> (\<exists>shared1 w'. runStage sv ResponseStage shared w = (Inr (''default'', shared1), w'))"
proof -
  let ?p = "(orElse (shared_query shared) [], orElse (shared_context shared) [],
          (case shared_intent shared of None \<Rightarrow> generalIntent | Some i \<Rightarrow> i))"
  obtain r w1 where e: "execWithRetries 3 (ResponseGenerationNode_exec sv) ?p w = (r, w1)"
    by (cases "execWithRetries 3 (ResponseGenerationNode_exec sv) ?p w")
  show ?thesis
  proof (cases r)
    case (Inl err)
    with e show ?thesis
      by (simp add: runStage_def runNode_def ResponseGenerationNode_prep_def)
  next
    case (Inr s)
    from ResponseGenerationNode_post_default [of sv shared ?p s w1]
    obtain shared1 w' where "ResponseGenerationNode_post sv shared ?p s w1 = ((''default'', shared1), w')"
      by blast
    with e Inr show ?thesis
      by (simp add: runStage_def runNode_def ResponseGenerationNode_prep_def)
  qed
qed


text \<open>A flow that ends without raising has run the metadata stage.\<close>

lemma orchestrate_Metadata:
  "\<exists>a. orchestrate sv MetadataStage shared w =
     (Inr (), [MetadataStage], shared\<lparr>shared_metadata := Some a\<rparr>, w)
     \<and> documentsFound a = (case shared_searchResults shared of None \<Rightarrow> 0 | Some rs \<Rightarrow> length rs)"
proof -
  from runStage_Metadata [of sv shared w] obtain a where
    a: "runStage sv MetadataStage shared w = (Inr (''default'', shared\<lparr>shared_metadata := Some a\<rparr>), w)"
      "documentsFound a = (case shared_searchResults shared of None \<Rightarrow> 0 | Some rs \<Rightarrow> length rs)"
    by blast
  moreover have "getNextNode MetadataStage ''default'' = None" by (simp add: getNextNode_def)
  ultimately have "orchestrate sv MetadataStage shared w =
     (Inr (), [MetadataStage], shared\<lparr>shared_metadata := Some a\<rparr>, w)"
    by (intro orchestrate_end)
  with a(2) show ?thesis by blast
qed

lemma annotated_step:
  "annotated res \<Longrightarrow> annotated (case res of (r, visited, shared2, w2) \<Rightarrow> (r, s # visited, shared2, w2))"
  by (cases res) (simp add: annotated_def)

lemma annotated_Metadata: "annotated (orchestrate sv MetadataStage shared w)"
  using orchestrate_Metadata [of sv shared w] by (auto simp: annotated_def)

lemma annotated_Response: "annotated (orchestrate sv ResponseStage shared w)"
  using runStage_Response [of sv shared w]
proof (elim disjE exE)
  fix err w' assume "runStage sv ResponseStage shared w = (Inl err, w')"
  then have "orchestrate sv ResponseStage shared w = (Inl err, [ResponseStage], shared, w')"
    by (rule orchestrate_raise)
  then show ?thesis by (simp add: annotated_def)
next
  fix shared1 w' assume "runStage sv ResponseStage shared w = (Inr (''default'', shared1), w')"
  moreover have "getNextNode ResponseStage ''default'' = Some MetadataStage"
    by (simp add: getNextNode_def)
  ultimately have "orchestrate sv ResponseStage shared w =
     (case orchestrate sv MetadataStage shared1 w' of
        (r, visited, shared2, w2) \<Rightarrow> (r, ResponseStage # visited, shared2, w2))"
    by (rule orchestrate_next)
  then show ?thesis using annotated_step [OF annotated_Metadata] by simp
qed

lemma annotated_Fallback: "annotated (orchestrate sv FallbackStage shared w)"
proof -
  from runStage_Fallback [of sv shared w] obtain s w' where
    "runStage sv FallbackStage shared w = (Inr (''default'', shared\<lparr>shared_response := Some s\<rparr>), w')"
    by blast
  moreover have "getNextNode FallbackStage ''default'' = Some MetadataStage"
    by (simp add: getNextNode_def)
  ultimately have "orchestrate sv FallbackStage shared w =
     (case orchestrate sv MetadataStage (shared\<lparr>shared_response := Some s\<rparr>) w' of
        (r, visited, shared2, w2) \<Rightarrow> (r, FallbackStage # visited, shared2, w2))"
    by (rule orchestrate_next)
  then show ?thesis using annotated_step [OF annotated_Metadata] by simp
qed

lemma annotated_Context: "annotated (orchestrate sv ContextStage shared w)"
proof -
  from runStage_Context [of sv shared w] obtain c where
    "runStage sv ContextStage shared w = (Inr (''default'', shared\<lparr>shared_context := Some c\<rparr>), w)"
    by blast
  moreover have "getNextNode ContextStage ''default'' = Some ResponseStage"
    by (simp add: getNextNode_def)
  ultimately have "orchestrate sv ContextStage shared w =
     (case orchestrate sv ResponseStage (shared\<lparr>shared_context := Some c\<rparr>) w of
        (r, visited, shared2, w2) \<Rightarrow> (r, ContextStage # visited, shared2, w2))"
    by (rule orchestrate_next)
  then show ?thesis using annotated_step [OF annotated_Response] by simp
qed

lemma annotated_Search: "annotated (orchestrate sv SearchStage shared w)"
proof -
  from runStage_Search [of sv shared w] obtain action rs w' where
    r: "runStage sv SearchStage shared w =
      (Inr (action, shared\<lparr>shared_searchResults := Some rs, shared_queryResults := Some rs\<rparr>), w')"
    and n: "getNextNode SearchStage action = Some FallbackStage
        \<or> getNextNode SearchStage action = Some ContextStage" by blast
  from n show ?thesis
  proof
    assume "getNextNode SearchStage action = Some FallbackStage"
    with r have "orchestrate sv SearchStage shared w =
     (case orchestrate sv FallbackStage
             (shared\<lparr>shared_searchResults := Some rs, shared_queryResults := Some rs\<rparr>) w' of
        (r, visited, shared2, w2) \<Rightarrow> (r, SearchStage # visited, shared2, w2))"
      by (rule orchestrate_next)
    then show ?thesis using annotated_step [OF annotated_Fallback] by simp
  next
    assume "getNextNode SearchStage action = Some ContextStage"
    with r have "orchestrate sv SearchStage shared w =
     (case orchestrate sv ContextStage
             (shared\<lparr>shared_searchResults := Some rs, shared_queryResults := Some rs\<rparr>) w' of
        (r, visited, shared2, w2) \<Rightarrow> (r, SearchStage # visited, shared2, w2))"
      by (rule orchestrate_next)
    then show ?thesis using annotated_step [OF annotated_Context] by simp
  qed
qed

lemma annotated_Expansion: "annotated (orchestrate sv ExpansionStage shared w)"
proof -
  from runStage_Expansion [of sv shared w] obtain qs w' where
    "runStage sv ExpansionStage shared w =
       (Inr (''default'', shared\<lparr>shared_expandedQueries := Some qs\<rparr>), w')"
    by blast
  moreover have "getNextNode ExpansionStage ''default'' = Some SearchStage"
    by (simp add: getNextNode_def)
  ultimately have "orchestrate sv ExpansionStage shared w =
     (case orchestrate sv SearchStage (shared\<lparr>shared_expandedQueries := Some qs\<rparr>) w' of
        (r, visited, shared2, w2) \<Rightarrow> (r, ExpansionStage # visited, shared2, w2))"
    by (rule orchestrate_next)
  then show ?thesis using annotated_step [OF annotated_Search] by simp
qed

lemma annotated_Intent: "annotated (orchestrate sv IntentStage shared w)"
  using runStage_Intent [of sv shared w]
proof (elim disjE exE conjE)
  fix err assume "runStage sv IntentStage shared w = (Inl err, w)"
  then have "orchestrate sv IntentStage shared w = (Inl err, [IntentStage], shared, w)"
    by (rule orchestrate_raise)
  then show ?thesis by (simp add: annotated_def)
next
  fix action i w'
  assume "runStage sv IntentStage shared w = (Inr (action, shared\<lparr>shared_intent := Some i\<rparr>), w')"
    and "getNextNode IntentStage action = Some ExpansionStage"
  then have "orchestrate sv IntentStage shared w =
     (case orchestrate sv ExpansionStage (shared\<lparr>shared_intent := Some i\<rparr>) w' of
        (r, visited, shared2, w2) \<Rightarrow> (r, IntentStage # visited, shared2, w2))"
    by (rule orchestrate_next)
  then show ?thesis using annotated_step [OF annotated_Expansion] by simp
qed

lemma orElse_not_Nil: "d \<noteq> [] \<Longrightarrow> orElse x d \<noteq> []"
  by (simp add: orElse_def split: option.splits)

text \<open>
  Claim C1: for every query text, whatever the collaborators do, \<open>query\<close> returns a
  response object and raises nothing; the answer in it is not empty; and the metadata is
  the error marker when the flow raised, and the analytics of the metadata stage when it
  did not.
\<close>

theorem C1_query_always_answers:
  "\<exists>r w'. query sv q w = (Inr r, w')
     \<and> response r \<noteq> []
     \<and> (if flowRaised sv q w then \<exists>m. metadata r = Some (ErrorMarker m)
         else \<exists>a. metadata r = Some (Analytics a))"
proof -
  obtain r visited shared w1 where o: "orchestrate sv IntentStage (initialShared q) w = (r, visited, shared, w1)"
    by (cases "orchestrate sv IntentStage (initialShared q) w") 
  show ?thesis
  proof (cases r)
    case (Inl err)
    from runStage_Error [of sv "shared\<lparr>shared_error := Some err\<rparr>" w1] obtain s where
      s: "s \<noteq> []" "runStage sv ErrorStage (shared\<lparr>shared_error := Some err\<rparr>) w1
         = (Inr (''default'', shared\<lparr>shared_error := Some err, shared_response := Some s\<rparr>), w1)"
      by auto
    have "query sv q w = (Inr \<lparr>response = orElse (Some s) ''System error occurred'',
                     metadata = Some (ErrorMarker (message err))\<rparr>, w1)"
      by (simp add: query_def o Inl s(2))
    moreover have "flowRaised sv q w" by (simp add: flowRaised_def o Inl)
    ultimately show ?thesis using s(1) by (simp add: orElse_def)
  next
    case (Inr u)
    from annotated_Intent [of sv "initialShared q" w] o Inr obtain a where
      a: "shared_metadata shared = Some a" by (auto simp: annotated_def)
    have "query sv q w = (Inr \<lparr>response = orElse (shared_response shared) ''No response generated'',
                metadata = Some (Analytics a)\<rparr>, w1)"
      by (simp add: query_def o Inr a)
    moreover have "\<not> flowRaised sv q w" by (simp add: flowRaised_def o Inr)
    ultimately show ?thesis by (simp add: orElse_not_Nil)
  qed
qed




















lemma empty_query_run:
  "orchestrate demoServices IntentStage (initialShared []) ()
     = (Inl (Error ''Query is required''), [IntentStage], initialShared [], ())"
  by (rule orchestrate_raise)
     (simp add: runStage_def runNode_def QueryIntentNode_prep_def initialShared_def)

lemma empty_query_answer:
  "query demoServices [] ()
     = (Inr \<lparr>response = systemErrorMessage [] ''Query is required'',
             metadata = Some (ErrorMarker ''Query is required'')\<rparr>, ())"
  unfolding query_def empty_query_run
  by (simp add: runStage_def runNode_def ErrorHandlingNode_prep_def
      ErrorHandlingNode_exec_def ErrorHandlingNode_post_def orElse_def initialShared_def
      systemErrorMessage_not_Nil)









text \<open>The theorem at the empty query: the intent stage raises and the caller gets the error answer.\<close>

theorem C1_query_always_answers_witness:
  "flowRaised demoServices [] ()
   \<and> query demoServices [] ()
       = (Inr \<lparr>response = systemErrorMessage [] ''Query is required'',
               metadata = Some (ErrorMarker ''Query is required'')\<rparr>, ())
   \<and> systemErrorMessage [] ''Query is required'' \<noteq> []"
  using C1_query_always_answers [of demoServices "[]" "()"]
  by (simp add: empty_query_answer flowRaised_def empty_query_run)



end
